theory Spec2Isabelle
  imports Main
begin

section \<open>Errors\<close>

text \<open>
  Go error values. The sentinels are the ones the program compares against; \<open>Failure\<close>
  stands for any other error a collaborator (the forge client, the git library, the
  file system, the HTTP client) hands back. \<open>Wrapf\<close> is \<^verbatim>\<open>fmt.Errorf\<close> with
  a \<^verbatim>\<open>%w\<close> verb: the string is the phase text around the wrapped error.
  \<open>NotMatch uri pattern\<close> is \<^verbatim>\<open>fmt.Errorf("%q not match <pattern>", uri)\<close> and
  \<open>NotSupport uri\<close> is \<^verbatim>\<open>fmt.Errorf("%q not support", uri)\<close>.
  \<open>NilDereference\<close> is not an error return but the run-time panic of dereferencing
  a nil pointer; it unwinds through every caller, which the model writes as the same
  propagation as an error return.
\<close>

datatype error =
    ErrNotFound
  | EOF
  | ErrRemoteNotFound
  | ErrBranchNotFound
  | NoErrAlreadyUpToDate
  | ErrEmptyRemoteRepository
  | NoMatchingRefSpecError
  | Failure string
  | Wrapf string error
  | NotMatch string string
  | NotSupport string
  | NilDereference

text \<open>\<^verbatim>\<open>errors.Is\<close>: the error itself or any error it wraps equals the target.\<close>

fun errors_Is :: "error \<Rightarrow> error \<Rightarrow> bool" where
  "errors_Is (Wrapf m e) target = (Wrapf m e = target \<or> errors_Is e target)"
| "errors_Is e target = (e = target)"

text \<open>
  \<^verbatim>\<open>errors.As(err, &noMatchingRefSpecError)\<close>: some error of the chain has the type
  \<^verbatim>\<open>gogit.NoMatchingRefSpecError\<close>.
\<close>

fun errors_As_NoMatchingRefSpecError :: "error \<Rightarrow> bool" where
  "errors_As_NoMatchingRefSpecError NoMatchingRefSpecError = True"
| "errors_As_NoMatchingRefSpecError (Wrapf m e) = errors_As_NoMatchingRefSpecError e"
| "errors_As_NoMatchingRefSpecError e = False"

section \<open>Strings\<close>

text \<open>\<^verbatim>\<open>strings.Index\<close>: the position of the first occurrence of \<open>sep\<close> in \<open>s\<close>.\<close>

fun Index :: "string \<Rightarrow> string \<Rightarrow> nat option" where
  "Index [] sep = (if sep = [] then Some 0 else None)"
| "Index (c # s) sep =
     (if take (length sep) (c # s) = sep then Some 0
      else map_option Suc (Index s sep))"

text \<open>
  \<^verbatim>\<open>strings.SplitN(s, sep, n)\<close> for a non-empty separator and \<open>n \<ge> 0\<close>, which is how
  the program calls it (\<^verbatim>\<open>"/"\<close> with 4 or 3, \<^verbatim>\<open>"/raw/"\<close> with 2): no pieces for
  \<open>n = 0\<close>, otherwise at most \<open>n\<close> pieces, the last one being the unsplit rest.
\<close>

fun SplitN :: "string \<Rightarrow> string \<Rightarrow> nat \<Rightarrow> string list" where
  "SplitN s sep 0 = []"
| "SplitN s sep (Suc n) =
     (if n = 0 then [s]
      else (case Index s sep of
              None \<Rightarrow> [s]
            | Some m \<Rightarrow> take m s # SplitN (drop (m + length sep) s) sep n))"

section \<open>URI router\<close>

text \<open>
  The fields of \<^verbatim>\<open>url.URL\<close> the router reads. \<^verbatim>\<open>url.Parse\<close> belongs to the Go
  standard library: the router functions take its result on \<open>uri\<close> as the parameter
  \<open>parsed\<close>. For \<^verbatim>\<open>scheme://host/path\<close> the library puts the text up to the first
  \<^verbatim>\<open>/\<close> after \<^verbatim>\<open>://\<close> into \<open>Host\<close> and the rest, with its leading \<^verbatim>\<open>/\<close>, into
  \<open>Path\<close>.
\<close>

record URL =
  Scheme :: string
  Host :: string
  Path :: string

text \<open>
  Every branch of the router either returns an error of its own or returns the result
  of one driver call verbatim; the model returns that error or names the call.
\<close>

datatype get_call =
    Call_GetFromGit string string string string
  | Call_GetFromReleasesAsset string string string string
  | Call_GetFromGist string string string

datatype put_call =
    Call_putInGit string string string string
  | Call_putInReleasesAsset string string string string
  | Call_putInGist string string string

datatype put_file_call =
    Call_putInGitWithFile string string string string string
  | Call_putInReleasesAssetWithFile string string string string string
  | Call_putInGistWithFile string string string string

definition GetFrom :: "error + URL \<Rightarrow> string \<Rightarrow> error + get_call" where
  "GetFrom parsed uri =
     (case parsed of
        Inl err \<Rightarrow> Inl err
      | Inr url \<Rightarrow>
          if Scheme url = ''git'' then
            (case SplitN (Path url) ''/'' 4 of
               [sl0, sl1, sl2, sl3] \<Rightarrow> Inr (Call_GetFromGit (Host url) sl1 sl2 sl3)
             | _ \<Rightarrow> Inl (NotMatch uri ''git://owner/repository/branch/name''))
          else if Scheme url = ''asset'' then
            (case SplitN (Path url) ''/'' 4 of
               [sl0, sl1, sl2, sl3] \<Rightarrow> Inr (Call_GetFromReleasesAsset (Host url) sl1 sl2 sl3)
             | _ \<Rightarrow> Inl (NotMatch uri ''asset://owner/repository/release/name''))
          else if Scheme url = ''gist'' then
            (case SplitN (Path url) ''/'' 3 of
               [sl0, sl1, sl2] \<Rightarrow> Inr (Call_GetFromGist (Host url) sl1 sl2)
             | _ \<Rightarrow> Inl (NotMatch uri ''gist://owner/gist_id/name''))
          else Inl (NotSupport uri))"

definition PutInWithFile :: "error + URL \<Rightarrow> string \<Rightarrow> string \<Rightarrow> error + put_file_call" where
  "PutInWithFile parsed uri filename =
     (case parsed of
        Inl err \<Rightarrow> Inl err
      | Inr u \<Rightarrow>
          if Scheme u = ''git'' then
            (case SplitN (Path u) ''/'' 4 of
               [sl0, sl1, sl2, sl3] \<Rightarrow> Inr (Call_putInGitWithFile (Host u) sl1 sl2 sl3 filename)
             | _ \<Rightarrow> Inl (NotMatch uri ''git://owner/repository/branch/name''))
          else if Scheme u = ''asset'' then
            (case SplitN (Path u) ''/'' 4 of
               [sl0, sl1, sl2, sl3] \<Rightarrow>
                 Inr (Call_putInReleasesAssetWithFile (Host u) sl1 sl2 sl3 filename)
             | _ \<Rightarrow> Inl (NotMatch uri ''asset://owner/repository/release/name''))
          else if Scheme u = ''gist'' then
            (case SplitN (Path u) ''/'' 3 of
               [sl0, sl1, sl2] \<Rightarrow> Inr (Call_putInGistWithFile (Host u) sl1 sl2 filename)
             | _ \<Rightarrow> Inl (NotMatch uri ''gist://owner/gist_id/name''))
          else Inl (NotSupport uri))"

definition PutIn :: "error + URL \<Rightarrow> string \<Rightarrow> error + put_call" where
  "PutIn parsed uri =
     (case parsed of
        Inl err \<Rightarrow> Inl err
      | Inr u \<Rightarrow>
          if Scheme u = ''git'' then
            (case SplitN (Path u) ''/'' 4 of
               [sl0, sl1, sl2, sl3] \<Rightarrow> Inr (Call_putInGit (Host u) sl1 sl2 sl3)
             | _ \<Rightarrow> Inl (NotMatch uri ''git://owner/repository/branch/name''))
          else if Scheme u = ''asset'' then
            (case SplitN (Path u) ''/'' 4 of
               [sl0, sl1, sl2, sl3] \<Rightarrow> Inr (Call_putInReleasesAsset (Host u) sl1 sl2 sl3)
             | _ \<Rightarrow> Inl (NotMatch uri ''asset://owner/repository/release/name''))
          else if Scheme u = ''gist'' then
            (case SplitN (Path u) ''/'' 3 of
               [sl0, sl1, sl2] \<Rightarrow> Inr (Call_putInGist (Host u) sl1 sl2)
             | _ \<Rightarrow> Inl (NotMatch uri ''gist://owner/gist_id/name''))
          else Inl (NotSupport uri))"

text \<open>
  The number of segments of an address \<^verbatim>\<open>scheme://s1/s2/.../sk\<close>: the host and the
  pieces of the path between its \<^verbatim>\<open>/\<close> separators.
\<close>

definition segment_count :: "URL \<Rightarrow> nat" where
  "segment_count u = Suc (count_list (Path u) CHR ''/'')"


section \<open>Auto-closing reader\<close>

text \<open>
  An \<^verbatim>\<open>io.ReadCloser\<close> is an object with a state \<open>'h\<close>: \<open>rc_Read h p\<close> is
  \<^verbatim>\<open>Read\<close> with a buffer of length \<open>p\<close> (the byte count and the error it returns,
  and the new state), \<open>rc_Close h\<close> is \<^verbatim>\<open>Close\<close>.
\<close>

record 'h ReadCloser =
  rc_Read :: "'h \<Rightarrow> nat \<Rightarrow> (nat \<times> error option) \<times> 'h"
  rc_Close :: "'h \<Rightarrow> error option \<times> 'h"

text \<open>The calls the reader makes on the handle it wraps.\<close>

datatype rc_call = Called_Read nat | Called_Close

text \<open>
  \<^verbatim>\<open>readerWithAutoCloser\<close> holds the wrapped handle: its state here is the state of
  that handle together with the calls made on it so far. The comparison
  \<^verbatim>\<open>err == io.EOF\<close> is an identity test, not \<^verbatim>\<open>errors.Is\<close>.
\<close>

definition readerWithAutoCloser_Read ::
  "'h ReadCloser \<Rightarrow> 'h \<times> rc_call list \<Rightarrow> nat \<Rightarrow> (nat \<times> error option) \<times> ('h \<times> rc_call list)"
where
  "readerWithAutoCloser_Read rc r p =
     (case r of (h, calls) \<Rightarrow>
        (case rc_Read rc h p of ((n, err), h1) \<Rightarrow>
           if err = Some EOF
           then (case rc_Close rc h1 of (_, h2) \<Rightarrow>
                   ((n, err), (h2, calls @ [Called_Read p, Called_Close])))
           else ((n, err), (h1, calls @ [Called_Read p]))))"

text \<open>A caller issuing one \<^verbatim>\<open>Read\<close> after the other, with buffers of the given lengths.\<close>

fun Reads ::
  "'h ReadCloser \<Rightarrow> 'h \<times> rc_call list \<Rightarrow> nat list
     \<Rightarrow> (nat \<times> error option) list \<times> ('h \<times> rc_call list)"
where
  "Reads rc r [] = ([], r)"
| "Reads rc r (p # ps) =
     (case readerWithAutoCloser_Read rc r p of (res, r1) \<Rightarrow>
        (case Reads rc r1 ps of (ress, r2) \<Rightarrow> (res # ress, r2)))"

text \<open>
  Two handles to run the reader on. \<open>nopCloser\<close> is a byte reader behind a closer that
  does nothing (\<^verbatim>\<open>io.NopCloser\<close> over a \<^verbatim>\<open>bytes.Reader\<close>; with no bytes, the
  \<^verbatim>\<open>http.NoBody\<close> of a response without content); its state is the number of bytes
  left, and at the end every \<^verbatim>\<open>Read\<close> reports \<^verbatim>\<open>io.EOF\<close>.
  \<open>fileHandle\<close> behaves as an open file does: its state is the number of bytes left
  and whether it is closed, and a \<^verbatim>\<open>Read\<close> or \<^verbatim>\<open>Close\<close> on a closed file fails
  with an error that is not \<^verbatim>\<open>io.EOF\<close>.
\<close>

definition nopCloser :: "nat ReadCloser" where
  "nopCloser =
     \<lparr>rc_Read = (\<lambda>h p. if h = 0 then ((0, Some EOF), h) else ((min p h, None), h - min p h)),
      rc_Close = (\<lambda>h. (None, h))\<rparr>"

definition fileHandle :: "(nat \<times> bool) ReadCloser" where
  "fileHandle =
     \<lparr>rc_Read = (\<lambda>h p. case h of (left, closed) \<Rightarrow>
                   if closed then ((0, Some (Failure ''file already closed'')), h)
                   else if left = 0 then ((0, Some EOF), h)
                   else ((min p left, None), (left - min p left, closed))),
      rc_Close = (\<lambda>h. case h of (left, closed) \<Rightarrow>
                   if closed then (Some (Failure ''file already closed''), h)
                   else (None, (left, True)))\<rparr>"

text \<open>What a get operation returns: an in-memory buffer or an auto-closing reader.\<close>

datatype 'b reader = BufferString string | AutoCloser 'b

section \<open>Remote resource scanner\<close>

text \<open>The fields of the forge client's \<^verbatim>\<open>Response\<close> the program reads.\<close>

record Response =
  StatusCode :: int
  NextPage :: int

definition StatusNotFound :: int where
  "StatusNotFound = 404"

text \<open>
  One answer of a paginated list call: the list, the response (possibly nil) and the
  error (possibly nil). The remote is the sequence of its answers: the k-th request
  gets the k-th answer. When the answers run out the request is still made and the
  call does not return, which is the result \<open>None\<close>.
\<close>

type_synonym 'a listing = "'a list \<times> Response option \<times> error option"

record GistFile =
  file_Filename :: "string option"
  file_Content :: "string option"
  file_RawURL :: "string option"

text \<open>\<open>gist_Files\<close> is the Go map from file name to file, as an association list.\<close>

record Gist =
  gist_ID :: "string option"
  gist_Description :: "string option"
  gist_Public :: "bool option"
  gist_Files :: "(string \<times> GistFile) list"

record ReleaseAsset =
  asset_ID :: "int option"
  asset_Name :: "string option"
  asset_BrowserDownloadURL :: "string option"

record RepositoryRelease =
  release_ID :: "int option"
  release_Name :: "string option"
  release_TagName :: "string option"
  release_Draft :: "bool option"
  release_Assets :: "ReleaseAsset list"

text \<open>
  The scanners return the pages they requested, in order, and, if they return, the
  error they return with the state of the callback. The callback \<open>next\<close> is a Go
  closure over variables of its caller: it takes and returns their state \<open>'s\<close>, and
  \<open>Inl\<close> is a panic inside it. The first request has \<^verbatim>\<open>opt.Page\<close> at its zero value.
\<close>

text \<open>
  The test \<^verbatim>\<open>next != nil && !next(list)\<close> leaves the loop when \<open>run_next\<close> gives
  false; a nil callback never does.
\<close>

definition run_next ::
  "('s \<Rightarrow> 'a list \<Rightarrow> error + bool \<times> 's) option \<Rightarrow> 's \<Rightarrow> 'a list \<Rightarrow> error + bool \<times> 's"
where
  "run_next next s list = (case next of None \<Rightarrow> Inr (True, s) | Some f \<Rightarrow> f s list)"

fun eachReleases ::
  "('s \<Rightarrow> RepositoryRelease list \<Rightarrow> error + bool \<times> 's) option
     \<Rightarrow> RepositoryRelease listing list \<Rightarrow> int \<Rightarrow> 's \<Rightarrow> int list \<times> (error option \<times> 's) option"
where
  "eachReleases next [] page s = ([page], None)"
| "eachReleases next ((list, resp, err) # remote) page s =
     (case err of
        Some e \<Rightarrow>
          (case resp of
             Some r \<Rightarrow>
               if StatusCode r = StatusNotFound then ([page], Some (None, s))
               else ([page], Some (Some e, s))
           | None \<Rightarrow> ([page], Some (Some e, s)))
      | None \<Rightarrow>
          (case run_next next s list of
             Inl panic \<Rightarrow> ([page], Some (Some panic, s))
           | Inr (continue, s1) \<Rightarrow>
               if \<not> continue then ([page], Some (None, s1))
               else (case resp of
                       None \<Rightarrow> ([page], Some (Some NilDereference, s1))
                     | Some r \<Rightarrow>
                         if NextPage r = 0 then ([page], Some (None, s1))
                         else (case eachReleases next remote (NextPage r) s1 of
                                 (pages, res) \<Rightarrow> (page # pages, res)))))"

fun eachGist ::
  "('s \<Rightarrow> Gist list \<Rightarrow> error + bool \<times> 's) option
     \<Rightarrow> Gist listing list \<Rightarrow> int \<Rightarrow> 's \<Rightarrow> int list \<times> (error option \<times> 's) option"
where
  "eachGist next [] page s = ([page], None)"
| "eachGist next ((list, resp, err) # remote) page s =
     (case err of
        Some e \<Rightarrow>
          (case resp of
             Some r \<Rightarrow>
               if StatusCode r = StatusNotFound then ([page], Some (None, s))
               else ([page], Some (Some e, s))
           | None \<Rightarrow> ([page], Some (Some e, s)))
      | None \<Rightarrow>
          (case run_next next s list of
             Inl panic \<Rightarrow> ([page], Some (Some panic, s))
           | Inr (continue, s1) \<Rightarrow>
               if \<not> continue then ([page], Some (None, s1))
               else (case resp of
                       None \<Rightarrow> ([page], Some (Some NilDereference, s1))
                     | Some r \<Rightarrow>
                         if NextPage r = 0 then ([page], Some (None, s1))
                         else (case eachGist next remote (NextPage r) s1 of
                                 (pages, res) \<Rightarrow> (page # pages, res)))))"


section \<open>Gist driver\<close>

definition anyFile :: string where
  "anyFile = ''*''"

text \<open>
  The loop of the closure that \<^verbatim>\<open>GetFromGist\<close> and \<^verbatim>\<open>putInGist\<close> hand to the
  scanner: the gist it stores into \<^verbatim>\<open>oriGist\<close> before returning false, or \<open>None\<close>
  when it runs through the page and returns true. \<^verbatim>\<open>*gist.ID\<close> panics on a nil
  identifier.
\<close>

fun find_gist :: "string \<Rightarrow> string \<Rightarrow> Gist list \<Rightarrow> error + Gist option" where
  "find_gist gistId name [] = Inr None"
| "find_gist gistId name (gist # gists) =
     (if gistId = anyFile then
        (case map_of (gist_Files gist) name of
           Some _ \<Rightarrow> Inr (Some gist)
         | None \<Rightarrow> find_gist gistId name gists)
      else
        (case gist_ID gist of
           None \<Rightarrow> Inl NilDereference
         | Some i \<Rightarrow> if i = gistId then Inr (Some gist) else find_gist gistId name gists))"

text \<open>The closure itself; its state is the captured variable \<^verbatim>\<open>oriGist\<close>.\<close>

definition gist_next :: "string \<Rightarrow> string \<Rightarrow> Gist option \<Rightarrow> Gist list \<Rightarrow> error + bool \<times> Gist option" where
  "gist_next gistId name oriGist gists =
     (case find_gist gistId name gists of
        Inl panic \<Rightarrow> Inl panic
      | Inr None \<Rightarrow> Inr (True, oriGist)
      | Inr (Some gist) \<Rightarrow> Inr (False, Some gist))"

text \<open>
  \<open>httpGet\<close> is the HTTP client: the body of the response or the error. \<open>remote\<close> is
  the answers of the gist list call for \<open>owner\<close>.
\<close>

definition GetFromGist ::
  "(string \<Rightarrow> error + 'b) \<Rightarrow> Gist listing list \<Rightarrow> string \<Rightarrow> string \<Rightarrow> string
     \<Rightarrow> (error + 'b reader) option"
where
  "GetFromGist httpGet remote owner gistId name =
     (case snd (eachGist (Some (gist_next gistId name)) remote 0 None) of
        None \<Rightarrow> None
      | Some (Some err, _) \<Rightarrow> Some (Inl err)
      | Some (None, None) \<Rightarrow> Some (Inl ErrNotFound)
      | Some (None, Some oriGist) \<Rightarrow>
          Some (case map_of (gist_Files oriGist) name of
                  None \<Rightarrow> Inl ErrNotFound
                | Some file \<Rightarrow>
                    (case file_Content file of
                       Some content \<Rightarrow> Inr (BufferString content)
                     | None \<Rightarrow>
                         (case file_RawURL file of
                            Some rawURL \<Rightarrow>
                              (case httpGet rawURL of
                                 Inl err \<Rightarrow> Inl err
                               | Inr body \<Rightarrow> Inr (AutoCloser body))
                          | None \<Rightarrow> Inl ErrNotFound))))"

text \<open>The calls of \<^verbatim>\<open>putInGist\<close> that change the remote, with what they submit.\<close>

datatype gist_call = Call_Gists_Create Gist | Call_Gists_Edit string Gist

text \<open>
  The end of \<^verbatim>\<open>putInGist\<close>: the raw URL of the named file of the gist the remote
  returned, cut at its \<^verbatim>\<open>/raw/\<close> and completed with the name. Indexing the map at a
  missing name gives a file whose \<^verbatim>\<open>RawURL\<close> is nil.
\<close>

definition stable_raw :: "Gist \<Rightarrow> string \<Rightarrow> error + string" where
  "stable_raw gist name =
     (case map_of (gist_Files gist) name of
        None \<Rightarrow> Inl NilDereference
      | Some file \<Rightarrow>
          (case file_RawURL file of
             None \<Rightarrow> Inl NilDereference
           | Some raw \<Rightarrow>
               (case SplitN raw ''/raw/'' 2 of
                  [] \<Rightarrow> Inl NilDereference
                | raw0 # _ \<Rightarrow> Inr (raw0 @ ''/raw/'' @ name))))"

text \<open>
  \<open>Create\<close> and \<open>Edit\<close> are the remote's answers to the two calls (the gist it returns
  or the error), \<open>r\<close> is what \<^verbatim>\<open>io.ReadAll\<close> gives on the source.
\<close>

definition putInGist ::
  "(Gist \<Rightarrow> error + Gist) \<Rightarrow> (string \<Rightarrow> Gist \<Rightarrow> error + Gist) \<Rightarrow> Gist listing list
     \<Rightarrow> string \<Rightarrow> string \<Rightarrow> string \<Rightarrow> error + string
     \<Rightarrow> gist_call list \<times> (error + string) option"
where
  "putInGist Create Edit remote owner gistId name r =
     (case r of
        Inl err \<Rightarrow> ([], Some (Inl err))
      | Inr dataContext \<Rightarrow>
          (case snd (eachGist (Some (gist_next gistId name)) remote 0 None) of
             None \<Rightarrow> ([], None)
           | Some (Some err, _) \<Rightarrow> ([], Some (Inl err))
           | Some (None, None) \<Rightarrow>
               (let new = \<lparr>gist_ID = None, gist_Description = Some gistId,
                           gist_Public = Some True,
                           gist_Files = [(name, \<lparr>file_Filename = None,
                                                 file_Content = Some dataContext,
                                                 file_RawURL = None\<rparr>)]\<rparr>
                in ([Call_Gists_Create new],
                    Some (case Create new of
                            Inl err \<Rightarrow> Inl err
                          | Inr gist \<Rightarrow> stable_raw gist name)))
           | Some (None, Some oriGist0) \<Rightarrow>
               (let oriGist = oriGist0\<lparr>gist_Files := [(name, \<lparr>file_Filename = Some name,
                                                              file_Content = Some dataContext,
                                                              file_RawURL = None\<rparr>)]\<rparr>
                in (case gist_ID oriGist of
                      None \<Rightarrow> ([], Some (Inl NilDereference))
                    | Some i \<Rightarrow>
                        ([Call_Gists_Edit i oriGist],
                         Some (case Edit i oriGist of
                                 Inl err \<Rightarrow> Inl err
                               | Inr gist \<Rightarrow> stable_raw gist name))))))"

section \<open>Release-asset driver\<close>

text \<open>
  The guard \<^verbatim>\<open>err != nil && response.StatusCode != http.StatusNotFound\<close> that follows
  the lookup by tag in both functions: the error they return there, if any. The
  right operand reads a field through \<^verbatim>\<open>response\<close>, which panics when it is nil.
\<close>

definition byTag_guard :: "Response option \<Rightarrow> error option \<Rightarrow> error option" where
  "byTag_guard response err =
     (case err of
        None \<Rightarrow> None
      | Some e \<Rightarrow>
          (case response of
             None \<Rightarrow> Some NilDereference
           | Some r \<Rightarrow> if StatusCode r \<noteq> StatusNotFound then Some e else None))"

text \<open>The loop of \<^verbatim>\<open>GetFromReleasesAsset\<close> over the assets, from the current \<^verbatim>\<open>downloadURL\<close>.\<close>

fun find_downloadURL :: "string \<Rightarrow> ReleaseAsset list \<Rightarrow> string \<Rightarrow> error + string" where
  "find_downloadURL name [] downloadURL = Inr downloadURL"
| "find_downloadURL name (asset # assets) downloadURL =
     (case asset_Name asset of
        None \<Rightarrow> Inl NilDereference
      | Some n \<Rightarrow>
          if n = name then
            (case asset_BrowserDownloadURL asset of
               None \<Rightarrow> Inl ErrNotFound
             | Some u \<Rightarrow> find_downloadURL name assets u)
          else find_downloadURL name assets downloadURL)"

text \<open>
  The forge client and the file system as the release-asset driver meets them: the
  answer of each call it can make.
\<close>

record asset_env =
  gh_GetReleaseByTag :: "RepositoryRelease option \<times> Response option \<times> error option"
  gh_CreateRelease :: "RepositoryRelease \<Rightarrow> error + RepositoryRelease"
  gh_GetRelease :: "int \<Rightarrow> error + RepositoryRelease"
  gh_DeleteReleaseAsset :: "int \<Rightarrow> error option"
  gh_UploadReleaseAsset :: "int \<Rightarrow> string \<Rightarrow> error + ReleaseAsset"
  os_Open :: "string \<Rightarrow> error option"

definition GetFromReleasesAsset ::
  "asset_env \<Rightarrow> (string \<Rightarrow> error + 'b) \<Rightarrow> string \<Rightarrow> string \<Rightarrow> string \<Rightarrow> string
     \<Rightarrow> error + 'b reader"
where
  "GetFromReleasesAsset env httpGet owner repo release name =
     (case gh_GetReleaseByTag env of (respRelease, response, err) \<Rightarrow>
        (case byTag_guard response err of
           Some e \<Rightarrow> Inl e
         | None \<Rightarrow>
             (case (case respRelease of None \<Rightarrow> None | Some rel \<Rightarrow> release_ID rel) of
                None \<Rightarrow> Inl ErrNotFound
              | Some releaseID \<Rightarrow>
                  (case gh_GetRelease env releaseID of
                     Inl e \<Rightarrow> Inl e
                   | Inr repositoryRelease \<Rightarrow>
                       (case find_downloadURL name (release_Assets repositoryRelease) [] of
                          Inl e \<Rightarrow> Inl e
                        | Inr downloadURL \<Rightarrow>
                            if downloadURL = [] then Inl ErrNotFound
                            else (case httpGet downloadURL of
                                    Inl e \<Rightarrow> Inl e
                                  | Inr body \<Rightarrow> Inr (AutoCloser body)))))))"

text \<open>The calls of \<^verbatim>\<open>putInReleasesAssetWithFile\<close> after the lookup by tag, in order.\<close>

datatype asset_call =
    Call_CreateRelease RepositoryRelease
  | Call_GetRelease int
  | Call_DeleteReleaseAsset int
  | Call_Open string
  | Call_UploadReleaseAsset int string
  | Call_Close string

text \<open>
  The loop over the assets of the existing release: the first asset of the given name
  is deleted and the loop left; the error is that of the delete call.
\<close>

fun delete_same_name ::
  "asset_env \<Rightarrow> string \<Rightarrow> ReleaseAsset list \<Rightarrow> asset_call list \<times> error option"
where
  "delete_same_name env name [] = ([], None)"
| "delete_same_name env name (asset # assets) =
     (case asset_Name asset of
        None \<Rightarrow> ([], Some NilDereference)
      | Some n \<Rightarrow>
          if n = name then
            (case asset_ID asset of
               None \<Rightarrow> ([], Some NilDereference)
             | Some i \<Rightarrow> ([Call_DeleteReleaseAsset i], gh_DeleteReleaseAsset env i))
          else delete_same_name env name assets)"

text \<open>
  The first half of \<^verbatim>\<open>putInReleasesAssetWithFile\<close>, up to the end of its
  \<^verbatim>\<open>if releaseID == nil ... else ...\<close>: the calls made and the \<^verbatim>\<open>releaseID\<close> to
  upload under (a pointer, possibly nil), or the error returned.
\<close>

definition resolve_release ::
  "asset_env \<Rightarrow> string \<Rightarrow> string \<Rightarrow> string \<Rightarrow> string \<Rightarrow> asset_call list \<times> (error + int option)"
where
  "resolve_release env owner repo release name =
     (case gh_GetReleaseByTag env of (respRelease, response, err) \<Rightarrow>
        (case byTag_guard response err of
           Some e \<Rightarrow> ([], Inl e)
         | None \<Rightarrow>
             (case (case respRelease of None \<Rightarrow> None | Some rel \<Rightarrow> release_ID rel) of
                None \<Rightarrow>
                  (let new = \<lparr>release_ID = None, release_Name = Some release,
                              release_TagName = Some release, release_Draft = Some False,
                              release_Assets = []\<rparr>
                   in (case gh_CreateRelease env new of
                         Inl e \<Rightarrow> ([Call_CreateRelease new], Inl e)
                       | Inr repositoryRelease \<Rightarrow>
                           ([Call_CreateRelease new], Inr (release_ID repositoryRelease))))
              | Some releaseID \<Rightarrow>
                  (case gh_GetRelease env releaseID of
                     Inl e \<Rightarrow> ([Call_GetRelease releaseID], Inl e)
                   | Inr repositoryRelease \<Rightarrow>
                       (case delete_same_name env name (release_Assets repositoryRelease) of
                          (calls, Some e) \<Rightarrow> (Call_GetRelease releaseID # calls, Inl e)
                        | (calls, None) \<Rightarrow>
                            (Call_GetRelease releaseID # calls, Inr (Some releaseID)))))))"

text \<open>
  The whole function: the file is opened, \<^verbatim>\<open>f.Close\<close> is deferred, and the asset is
  uploaded under \<^verbatim>\<open>*releaseID\<close>.
\<close>

definition putInReleasesAssetWithFile ::
  "asset_env \<Rightarrow> string \<Rightarrow> string \<Rightarrow> string \<Rightarrow> string \<Rightarrow> string
     \<Rightarrow> asset_call list \<times> (error + string)"
where
  "putInReleasesAssetWithFile env owner repo release name filename =
     (case resolve_release env owner repo release name of
        (calls, Inl e) \<Rightarrow> (calls, Inl e)
      | (calls, Inr releaseID) \<Rightarrow>
          (case os_Open env filename of
             Some e \<Rightarrow> (calls @ [Call_Open filename], Inl e)
           | None \<Rightarrow>
               (case releaseID of
                  None \<Rightarrow> (calls @ [Call_Open filename, Call_Close filename], Inl NilDereference)
                | Some i \<Rightarrow>
                    (calls @ [Call_Open filename, Call_UploadReleaseAsset i name,
                              Call_Close filename],
                     (case gh_UploadReleaseAsset env i name of
                        Inl e \<Rightarrow> Inl e
                      | Inr respAsset \<Rightarrow>
                          (case asset_BrowserDownloadURL respAsset of
                             None \<Rightarrow> Inl NilDereference
                           | Some u \<Rightarrow> Inr u))))))"


section \<open>Git mirror driver\<close>

text \<open>
  A \<^verbatim>\<open>plumbing.Hash\<close> is 20 bytes, read here as the number they spell; the zero hash
  is 0. A reference is a name with a hash or a name with the name of its target;
  \<^verbatim>\<open>Hash()\<close> of a symbolic reference is the zero hash.
\<close>

type_synonym hash = nat

definition IsZero :: "hash \<Rightarrow> bool" where
  "IsZero h = (h = 0)"

datatype reference = HashReference string hash | SymbolicReference string string

fun ref_Hash :: "reference \<Rightarrow> hash" where
  "ref_Hash (HashReference n h) = h"
| "ref_Hash (SymbolicReference n target) = 0"

fun ref_Name :: "reference \<Rightarrow> string" where
  "ref_Name (HashReference n h) = n"
| "ref_Name (SymbolicReference n target) = n"

definition HEAD :: string where
  "HEAD = ''HEAD''"

definition NewBranchReferenceName :: "string \<Rightarrow> string" where
  "NewBranchReferenceName branch = ''refs/heads/'' @ branch"

datatype status_code =
  Unmodified | Untracked | Modified | Added | Deleted | Renamed | Copied | UpdatedButUnmerged

record FileStatus =
  Staging :: status_code
  Worktree :: status_code

text \<open>The configuration of the \<^verbatim>\<open>PutInGH\<close> value that the git driver reads.\<close>

record PutInGH =
  tmpDir :: string
  host :: string
  gitCommitMessage :: "string \<Rightarrow> string \<Rightarrow> string \<Rightarrow> string \<Rightarrow> string \<Rightarrow> string"

definition gitRemoteName :: "string \<Rightarrow> string" where
  "gitRemoteName branch = ''origin-'' @ branch"

definition gitURL :: "PutInGH \<Rightarrow> string \<Rightarrow> string \<Rightarrow> string" where
  "gitURL s owner repo = host s @ ''/'' @ owner @ ''/'' @ repo"

text \<open>
  The calls of the git driver that change the mirror, the file system or the remote,
  with the arguments that matter: the reference set, the remote created (name, URL,
  refspec), the branch created (name, merge, remote), the fetch (remote name,
  refspec), the hard reset (commit), the commit (message), the push (remote name).
\<close>

datatype git_call =
    Call_MkdirAll string
  | Call_PlainOpen string
  | Call_PlainInit string
  | Call_SetReference reference
  | Call_CreateRemote string string string
  | Call_CreateBranch string string string
  | Call_FetchContext string string
  | Call_Reset hash
  | Call_OpenFile string
  | Call_Copy
  | Call_Add string
  | is_Commit: Call_Commit string
  | is_Push: Call_PushContext string

text \<open>
  The git library, the path library and the file system as \<^verbatim>\<open>fetchGit\<close> meets
  them: the answer of each call it can make. \<open>git_Branch\<close> is the first lookup of the
  branch and \<open>git_Branch_created\<close> the one after its creation; \<open>git_IterReferences\<close>
  is the references the iterator yields, in its order, after the fetch.
\<close>

record git_env =
  path_Join :: "string list \<Rightarrow> string"
  path_Dir :: "string \<Rightarrow> string"
  os_Stat :: "string \<Rightarrow> error option"
  git_PlainOpen :: "string \<Rightarrow> error option"
  git_PlainInit :: "string \<Rightarrow> error option"
  git_SetReference :: "reference \<Rightarrow> error option"
  git_Remote :: "string \<Rightarrow> error option"
  git_CreateRemote :: "error option"
  git_Branch :: "error option"
  git_CreateBranch :: "error option"
  git_Branch_created :: "error option"
  git_FetchContext :: "error option"
  git_IterReferences :: "error + reference list"
  git_Worktree :: "error option"
  git_Reset :: "hash \<Rightarrow> error option"

text \<open>What \<^verbatim>\<open>putInGit\<close> and \<^verbatim>\<open>GetFromGit\<close> meet after the sync.\<close>

record file_env =
  os_MkdirAll :: "string \<Rightarrow> error option"
  os_OpenFile :: "string \<Rightarrow> error option"
  io_Copy :: "error option"
  work_Add :: "string \<Rightarrow> error option"
  work_Status :: "error + (string \<times> FileStatus) list"
  work_Commit :: "string \<Rightarrow> error option"
  git_PushContext :: "string \<Rightarrow> error option"

text \<open>
  Sequencing: a step is the calls it made with its value or the error it returns;
  \<open>andThen\<close> runs the rest after a step that gave a value and stops at an error.
  \<open>call c res\<close> is one library call with the answer \<open>res\<close>, \<open>wrap msg\<close> is
  \<^verbatim>\<open>fmt.Errorf\<close> around the error of a step.
\<close>

definition andThen ::
  "'c list \<times> (error + 'a) \<Rightarrow> ('a \<Rightarrow> 'c list \<times> (error + 'b)) \<Rightarrow> 'c list \<times> (error + 'b)"
where
  "andThen m f =
     (case m of
        (calls, Inl e) \<Rightarrow> (calls, Inl e)
      | (calls, Inr x) \<Rightarrow> (case f x of (calls', res) \<Rightarrow> (calls @ calls', res)))"

definition call :: "'c \<Rightarrow> error option \<Rightarrow> 'c list \<times> (error + unit)" where
  "call c res = ([c], case res of None \<Rightarrow> Inr () | Some e \<Rightarrow> Inl e)"

definition look :: "error option \<Rightarrow> 'c list \<times> (error + unit)" where
  "look res = ([], case res of None \<Rightarrow> Inr () | Some e \<Rightarrow> Inl e)"

definition wrap :: "string \<Rightarrow> 'c list \<times> (error + 'a) \<Rightarrow> 'c list \<times> (error + 'a)" where
  "wrap msg m =
     (case m of
        (calls, Inl e) \<Rightarrow> (calls, Inl (Wrapf msg e))
      | (calls, Inr x) \<Rightarrow> (calls, Inr x))"

text \<open>
  Lines 602 to 627 of \<^verbatim>\<open>fetchGit\<close>: the first reference of the iterator is taken
  (\<^verbatim>\<open>Next\<close> on an iterator with no reference fails with \<^verbatim>\<open>io.EOF\<close>), and if its
  hash is not zero the branch reference is set to it and the working tree is reset
  to it.
\<close>

definition fetchGit_reset :: "git_env \<Rightarrow> string \<Rightarrow> git_call list \<times> (error + unit)" where
  "fetchGit_reset env refName =
     (case git_IterReferences env of
        Inl e \<Rightarrow> ([], Inl (Wrapf ''iterReferences: '' e))
      | Inr [] \<Rightarrow> ([], Inl (Wrapf ''next: '' EOF))
      | Inr (ref # _) \<Rightarrow>
          if \<not> IsZero (ref_Hash ref) then
            andThen (wrap ''setReference: ''
                       (call (Call_SetReference (HashReference refName (ref_Hash ref)))
                          (git_SetReference env (HashReference refName (ref_Hash ref)))))
              (\<lambda>_. andThen (look (git_Worktree env))
              (\<lambda>_. wrap ''git reset: ''
                      (call (Call_Reset (ref_Hash ref)) (git_Reset env (ref_Hash ref)))))
          else ([], Inr ()))"

text \<open>The refspec of the fetch: the remote's branch onto the remote-tracking reference.\<close>

definition fetch_refspec :: "string \<Rightarrow> string" where
  "fetch_refspec branch =
     ''+refs/heads/'' @ branch @ '':refs/remotes/'' @ gitRemoteName branch @ ''/'' @ branch"

text \<open>
  Lines 524 to 587: the mirror is opened or created, its \<^verbatim>\<open>HEAD\<close> is bound to the
  branch, and the remote and the branch are looked up and created when not found. The
  value is \<^verbatim>\<open>dir\<close>. The error of the first \<^verbatim>\<open>MkdirAll\<close> is dropped.
\<close>

definition fetchGit_bind ::
  "git_env \<Rightarrow> PutInGH \<Rightarrow> string \<Rightarrow> string \<Rightarrow> string \<Rightarrow> git_call list \<times> (error + string)"
where
  "fetchGit_bind env s owner repo branch =
     (let giturl = gitURL s owner repo;
          dir = path_Join env [tmpDir s, ''git'', owner, repo, branch];
          remoteName = gitRemoteName branch;
          refName = NewBranchReferenceName branch;
          fetch = fetch_refspec branch
      in
      andThen (call (Call_MkdirAll (path_Dir env dir)) None)
        (\<lambda>_. andThen (wrap ('': '' @ dir)
                        (if os_Stat env (dir @ ''/.git'') = None
                         then call (Call_PlainOpen dir) (git_PlainOpen env dir)
                         else call (Call_PlainInit dir) (git_PlainInit env dir)))
        (\<lambda>_. andThen (call (Call_SetReference (SymbolicReference HEAD refName))
                        (git_SetReference env (SymbolicReference HEAD refName)))
        (\<lambda>_. andThen (case git_Remote env remoteName of
                        None \<Rightarrow> ([], Inr ())
                      | Some err \<Rightarrow>
                          if \<not> errors_Is err ErrRemoteNotFound then ([], Inl err)
                          else call (Call_CreateRemote remoteName giturl fetch)
                                 (git_CreateRemote env))
        (\<lambda>_. andThen (case git_Branch env of
                        None \<Rightarrow> ([], Inr ())
                      | Some err \<Rightarrow>
                          if \<not> errors_Is err ErrBranchNotFound then ([], Inl err)
                          else andThen (call (Call_CreateBranch branch refName remoteName)
                                          (git_CreateBranch env))
                                 (\<lambda>_. look (git_Branch_created env)))
        (\<lambda>_. ([], Inr dir)))))))"

text \<open>Lines 589 to 600: the fetch and the test of its error.\<close>

definition fetchGit_fetch :: "git_env \<Rightarrow> string \<Rightarrow> git_call list \<times> (error + unit)" where
  "fetchGit_fetch env branch =
     (case git_FetchContext env of
        None \<Rightarrow> ([Call_FetchContext (gitRemoteName branch) (fetch_refspec branch)], Inr ())
      | Some err \<Rightarrow>
          if \<not> errors_Is err NoErrAlreadyUpToDate \<and> \<not> errors_Is err ErrEmptyRemoteRepository
          then (if \<not> errors_As_NoMatchingRefSpecError err
                then ([Call_FetchContext (gitRemoteName branch) (fetch_refspec branch)],
                      Inl (Wrapf ''git fetch: '' err))
                else ([Call_FetchContext (gitRemoteName branch) (fetch_refspec branch)], Inr ()))
          else ([Call_FetchContext (gitRemoteName branch) (fetch_refspec branch)], Inr ()))"

definition fetchGit ::
  "git_env \<Rightarrow> PutInGH \<Rightarrow> string \<Rightarrow> string \<Rightarrow> string \<Rightarrow> git_call list \<times> (error + string)"
where
  "fetchGit env s owner repo branch =
     andThen (fetchGit_bind env s owner repo branch)
       (\<lambda>dir. andThen (fetchGit_fetch env branch)
       (\<lambda>_. andThen (fetchGit_reset env (NewBranchReferenceName branch))
       (\<lambda>_. ([], Inr dir))))"

text \<open>\<open>open_file\<close> is the answer of \<^verbatim>\<open>os.Open\<close> on the named file of the working tree.\<close>

definition GetFromGit ::
  "git_env \<Rightarrow> (string \<Rightarrow> error + 'b) \<Rightarrow> PutInGH \<Rightarrow> string \<Rightarrow> string \<Rightarrow> string \<Rightarrow> string
     \<Rightarrow> git_call list \<times> (error + 'b reader)"
where
  "GetFromGit env open_file s owner repo branch name =
     andThen (fetchGit env s owner repo branch)
       (\<lambda>dir. case open_file (path_Join env [dir, name]) of
                Inl err \<Rightarrow> ([], Inl err)
              | Inr f \<Rightarrow> ([], Inr (AutoCloser f)))"

text \<open>
  The test of lines 503 to 505 on the status map (an association list here):
  \<^verbatim>\<open>status[name]\<close> is nil for a path the map does not hold.
\<close>

definition status_dirty :: "(string \<times> FileStatus) list \<Rightarrow> string \<Rightarrow> bool" where
  "status_dirty status name =
     (length status \<noteq> 0 \<and> map_of status name \<noteq> None
      \<and> (case map_of status name of
            None \<Rightarrow> False
          | Some fs \<Rightarrow> Staging fs \<noteq> Unmodified \<or> Worktree fs \<noteq> Unmodified))"

definition putInGit ::
  "git_env \<Rightarrow> file_env \<Rightarrow> PutInGH \<Rightarrow> string \<Rightarrow> string \<Rightarrow> string \<Rightarrow> string
     \<Rightarrow> git_call list \<times> (error + string)"
where
  "putInGit env fenv s owner repo branch name =
     andThen (fetchGit env s owner repo branch)
       (\<lambda>dir. let fname = path_Join env [dir, name] in
        andThen (call (Call_MkdirAll (path_Dir env fname)) (os_MkdirAll fenv (path_Dir env fname)))
       (\<lambda>_. andThen (call (Call_OpenFile fname) (os_OpenFile fenv fname))
       (\<lambda>_. andThen (call Call_Copy (io_Copy fenv))
       (\<lambda>_. andThen (look (git_Worktree env))
       (\<lambda>_. andThen (wrap ''git add: '' (call (Call_Add name) (work_Add fenv name)))
       (\<lambda>_. andThen (case work_Status fenv of
                       Inl err \<Rightarrow> ([], Inl err)
                     | Inr status \<Rightarrow> ([], Inr status))
       (\<lambda>status.
          andThen (if status_dirty status name then
                     (let message = gitCommitMessage s owner repo branch name fname in
                      andThen (wrap ''git commit: ''
                                 (call (Call_Commit message) (work_Commit fenv message)))
                        (\<lambda>_. wrap ''git push: ''
                                (call (Call_PushContext (gitRemoteName branch))
                                   (git_PushContext fenv (gitRemoteName branch)))))
                   else ([], Inr ()))
       (\<lambda>_. ([], Inr (gitURL s owner repo @ ''/raw/'' @ branch @ ''/'' @ name))))))))))"

text \<open>
  A path shows a change in a status when the status has an entry for it whose staging
  or working-tree code is not \<open>Unmodified\<close>.
\<close>

definition path_changed :: "(string \<times> FileStatus) list \<Rightarrow> string \<Rightarrow> bool" where
  "path_changed status name =
     (case map_of status name of
        None \<Rightarrow> False
      | Some fs \<Rightarrow> Staging fs \<noteq> Unmodified \<or> Worktree fs \<noteq> Unmodified)"


section \<open>Notions and inputs for the properties\<close>

text \<open>Three pages of one gist each, every page but the last advertising the next.\<close>

definition three_pages :: "Gist listing list" where
  "three_pages =
     [([\<lparr>gist_ID = Some ''a'', gist_Description = None, gist_Public = None, gist_Files = []\<rparr>],
       Some \<lparr>StatusCode = 200, NextPage = 2\<rparr>, None),
      ([\<lparr>gist_ID = Some ''b'', gist_Description = None, gist_Public = None, gist_Files = []\<rparr>],
       Some \<lparr>StatusCode = 200, NextPage = 3\<rparr>, None),
      ([\<lparr>gist_ID = Some ''c'', gist_Description = None, gist_Public = None, gist_Files = []\<rparr>],
       Some \<lparr>StatusCode = 200, NextPage = 0\<rparr>, None)]"

text \<open>
  A forge that cannot be reached: the lookup by tag fails with an error and no
  response, as a failed connection does.
\<close>

definition no_response_env :: asset_env where
  "no_response_env =
     \<lparr>gh_GetReleaseByTag = (None, None, Some (Failure ''connection refused'')),
      gh_CreateRelease = (\<lambda>r. Inl (Failure ''connection refused'')),
      gh_GetRelease = (\<lambda>i. Inl (Failure ''connection refused'')),
      gh_DeleteReleaseAsset = (\<lambda>i. Some (Failure ''connection refused'')),
      gh_UploadReleaseAsset = (\<lambda>i n. Inl (Failure ''connection refused'')),
      os_Open = (\<lambda>f. None)\<rparr>"

text \<open>
  An HTTP client that cannot connect.
\<close>

definition no_http :: "string \<Rightarrow> error + unit" where
  "no_http url = Inl (Failure ''connection refused'')"

text \<open>
  A forge holding the release \<open>v1\<close> (identifier 7) with the assets \<open>a.bin\<close> and
  \<open>b.bin\<close>; the answers of the delete and upload calls are parameters.
\<close>

definition two_assets_env :: "error option \<Rightarrow> error + ReleaseAsset \<Rightarrow> asset_env" where
  "two_assets_env deleted uploaded =
     \<lparr>gh_GetReleaseByTag =
        (Some \<lparr>release_ID = Some 7, release_Name = Some ''v1'', release_TagName = Some ''v1'',
               release_Draft = Some False, release_Assets = []\<rparr>,
         Some \<lparr>StatusCode = 200, NextPage = 0\<rparr>, None),
      gh_CreateRelease = (\<lambda>r. Inl (Failure ''already exists'')),
      gh_GetRelease = (\<lambda>i. Inr
        \<lparr>release_ID = Some 7, release_Name = Some ''v1'', release_TagName = Some ''v1'',
         release_Draft = Some False,
         release_Assets =
           [\<lparr>asset_ID = Some 1, asset_Name = Some ''a.bin'', asset_BrowserDownloadURL = None\<rparr>,
            \<lparr>asset_ID = Some 2, asset_Name = Some ''b.bin'', asset_BrowserDownloadURL = None\<rparr>]\<rparr>),
      gh_DeleteReleaseAsset = (\<lambda>i. deleted),
      gh_UploadReleaseAsset = (\<lambda>i n. uploaded),
      os_Open = (\<lambda>f. None)\<rparr>"

text \<open>
  The match rule in words: under the wildcard selector a gist matches when it holds a
  file of the given name, under any other selector when its identifier is the
  selector.
\<close>

definition matches :: "string \<Rightarrow> string \<Rightarrow> Gist \<Rightarrow> bool" where
  "matches gistId name gist =
     (if gistId = anyFile then map_of (gist_Files gist) name \<noteq> None
      else gist_ID gist = Some gistId)"

text \<open>
  A gist that the loop passes over without panicking: under the wildcard it holds no
  file of the given name, otherwise it has an identifier and this is not the
  selector.
\<close>

definition skips :: "string \<Rightarrow> string \<Rightarrow> Gist \<Rightarrow> bool" where
  "skips gistId name gist =
     (if gistId = anyFile then map_of (gist_Files gist) name = None
      else (case gist_ID gist of None \<Rightarrow> False | Some i \<Rightarrow> i \<noteq> gistId))"

text \<open>
  An answer the scan goes past: no error, no gist that matches, a next page to ask for.
\<close>

definition passed :: "string \<Rightarrow> string \<Rightarrow> Gist listing \<Rightarrow> bool" where
  "passed gistId name answer =
     (case answer of
        (gists, Some r, None) \<Rightarrow> NextPage r \<noteq> 0 \<and> (\<forall>g \<in> set gists. skips gistId name g)
      | _ \<Rightarrow> False)"

text \<open>
  The answer a forge returns for the gist it holds after an edit: that gist, each file
  given a raw URL.
\<close>

definition echo_Edit :: "string \<Rightarrow> Gist \<Rightarrow> error + Gist" where
  "echo_Edit i gist =
     Inr (gist\<lparr>gist_Files :=
            map (\<lambda>(n, file). (n, file\<lparr>file_RawURL :=
                   Some (''https://gist.example/o/'' @ i @ ''/raw/0f3a/'' @ n)\<rparr>))
              (gist_Files gist)\<rparr>)"

text \<open>
  An existing gist with two files, \<open>x\<close> and \<open>y\<close>, listed without inline content.
\<close>

definition gist_xy :: Gist where
  "gist_xy =
     \<lparr>gist_ID = Some ''g1'', gist_Description = Some ''notes'', gist_Public = Some True,
      gist_Files =
        [(''x'', \<lparr>file_Filename = Some ''x'', file_Content = None,
                  file_RawURL = Some ''https://gist.example/o/g1/raw/77aa/x''\<rparr>),
         (''y'', \<lparr>file_Filename = Some ''y'', file_Content = None,
                  file_RawURL = Some ''https://gist.example/o/g1/raw/77aa/y''\<rparr>)]\<rparr>"

text \<open>
  The page an answer advertises: the \<^verbatim>\<open>NextPage\<close> of its response, none (0) when
  the response is nil.
\<close>

definition next_page :: "'a listing \<Rightarrow> int" where
  "next_page answer = (case answer of (list, Some r, err) \<Rightarrow> NextPage r | _ \<Rightarrow> 0)"

text \<open>
  A run of answers after each of which a scan goes on, from the closure state \<open>s\<close>:
  each answer has no error, the callback returns true on its list at the state the
  answers before have left, and its response advertises a next page. The value is the
  closure state after the run; \<open>None\<close> when some answer ends the scan.
\<close>

fun goes_on ::
  "('s \<Rightarrow> 'a list \<Rightarrow> error + bool \<times> 's) option \<Rightarrow> 's \<Rightarrow> 'a listing list \<Rightarrow> 's option"
where
  "goes_on next s [] = Some s"
| "goes_on next s ((list, resp, err) # answers) =
     (case err of
        Some e \<Rightarrow> None
      | None \<Rightarrow>
          (case run_next next s list of
             Inl panic \<Rightarrow> None
           | Inr (continue, s1) \<Rightarrow>
               if \<not> continue then None
               else (case resp of
                       None \<Rightarrow> None
                     | Some r \<Rightarrow> if NextPage r = 0 then None else goes_on next s1 answers)))"

text \<open>
  A callback whose verdict depends on its state: it counts the pages it is given and
  returns false on the \<open>n\<close>-th.
\<close>

definition count_to :: "nat \<Rightarrow> nat \<Rightarrow> 'a list \<Rightarrow> error + bool \<times> nat" where
  "count_to n seen list = Inr (Suc seen < n, Suc seen)"

text \<open>
  Two ways a forge may apply an edit to the gist it stores. \<open>replace_files\<close> puts the
  submitted file set in place of the stored one. \<open>merge_files\<close> updates the stored
  files that the submission names, adds the ones it does not hold yet and keeps every
  other stored file.
\<close>

definition replace_files :: "Gist \<Rightarrow> Gist \<Rightarrow> Gist" where
  "replace_files stored submitted = stored\<lparr>gist_Files := gist_Files submitted\<rparr>"

definition merge_files :: "Gist \<Rightarrow> Gist \<Rightarrow> Gist" where
  "merge_files stored submitted =
     stored\<lparr>gist_Files :=
       map (\<lambda>(n, old). (n, case map_of (gist_Files submitted) n of
                                Some new \<Rightarrow> new
                              | None \<Rightarrow> old))
         (gist_Files stored)
       @ filter (\<lambda>(n, new). map_of (gist_Files stored) n = None) (gist_Files submitted)\<rparr>"

text \<open>
  The gist at the remote after the calls of a put, on a forge that applies an edit of
  the stored gist by \<open>forge\<close>; a create makes another gist.
\<close>

fun remote_after :: "(Gist \<Rightarrow> Gist \<Rightarrow> Gist) \<Rightarrow> Gist \<Rightarrow> gist_call list \<Rightarrow> Gist" where
  "remote_after forge stored [] = stored"
| "remote_after forge stored (Call_Gists_Create new # calls) = remote_after forge stored calls"
| "remote_after forge stored (Call_Gists_Edit i submitted # calls) =
     remote_after forge
       (if gist_ID stored = Some i then forge stored submitted else stored) calls"

text \<open>
  The answer to the edit call of a forge that stores \<open>stored\<close>: the gist after the
  edit, each file with a raw URL.
\<close>

definition forge_Edit ::
  "(Gist \<Rightarrow> Gist \<Rightarrow> Gist) \<Rightarrow> Gist \<Rightarrow> string \<Rightarrow> Gist \<Rightarrow> error + Gist"
where
  "forge_Edit forge stored i submitted = echo_Edit i (forge stored submitted)"

text \<open>
  The three fetch outcomes named as harmless: already up to date, empty remote
  repository, no matching ref on the remote, each possibly wrapped.
\<close>

definition benign_fetch :: "error \<Rightarrow> bool" where
  "benign_fetch err =
     (errors_Is err NoErrAlreadyUpToDate \<or> errors_Is err ErrEmptyRemoteRepository
      \<or> errors_As_NoMatchingRefSpecError err)"

text \<open>
  The hash of the remote-tracking reference of the branch,
  \<^verbatim>\<open>refs/remotes/origin-<branch>/<branch>\<close>, among the references of the mirror;
  the zero hash when there is none.
\<close>

fun remote_tracking_hash :: "reference list \<Rightarrow> string \<Rightarrow> hash" where
  "remote_tracking_hash [] branch = 0"
| "remote_tracking_hash (ref # refs) branch =
     (if ref_Name ref = ''refs/remotes/'' @ gitRemoteName branch @ ''/'' @ branch
      then ref_Hash ref else remote_tracking_hash refs branch)"

text \<open>
  A mirror that exists on disk with its remote and branch configured; the outcome of
  the fetch and the references the iterator yields afterwards are parameters.
\<close>

definition mirror_env :: "error option \<Rightarrow> reference list \<Rightarrow> git_env" where
  "mirror_env fetched refs =
     \<lparr>path_Join = (\<lambda>parts. foldr (\<lambda>a b. if b = [] then a else a @ ''/'' @ b) parts []),
      path_Dir = (\<lambda>path. rev (tl (dropWhile (\<lambda>c. c \<noteq> CHR ''/'') (rev path)))),
      os_Stat = (\<lambda>path. None),
      git_PlainOpen = (\<lambda>dir. None),
      git_PlainInit = (\<lambda>dir. Some (Failure ''repository already exists'')),
      git_SetReference = (\<lambda>ref. None),
      git_Remote = (\<lambda>name. None),
      git_CreateRemote = Some (Failure ''remote already exists''),
      git_Branch = None,
      git_CreateBranch = Some (Failure ''branch already exists''),
      git_Branch_created = None,
      git_FetchContext = fetched,
      git_IterReferences = Inr refs,
      git_Worktree = None,
      git_Reset = (\<lambda>h. None)\<rparr>"

text \<open>
  The default configuration: temporary directory, host and commit message.
\<close>

definition config :: PutInGH where
  "config =
     \<lparr>tmpDir = ''tmp'', host = ''https://github.com'',
      gitCommitMessage = (\<lambda>owner repo branch name path. ''Automatic update '' @ name)\<rparr>"

text \<open>
  A working tree where writing, staging, committing and pushing succeed; the status
  is a parameter.
\<close>

definition worktree_env :: "(string \<times> FileStatus) list \<Rightarrow> file_env" where
  "worktree_env status =
     \<lparr>os_MkdirAll = (\<lambda>path. None),
      os_OpenFile = (\<lambda>path. None),
      io_Copy = None,
      work_Add = (\<lambda>name. None),
      work_Status = Inr status,
      work_Commit = (\<lambda>message. None),
      git_PushContext = (\<lambda>remote. None)\<rparr>"


text \<open>
  The references of a mirror synced earlier at commit 161 whose remote branch has since
  moved to commit 178: the fetch has updated the remote-tracking reference, and the
  iterator yields the local branch first.
\<close>

definition stale_refs :: "reference list" where
  "stale_refs =
     [HashReference ''refs/heads/main'' 161,
      HashReference ''refs/remotes/origin-main/main'' 178,
      SymbolicReference ''HEAD'' ''refs/heads/main'']"

text \<open>
  The references of a mirror holding a local commit 161 on the branch and no
  remote-tracking reference: the branch does not exist on the remote.
\<close>

definition unpushed_refs :: "reference list" where
  "unpushed_refs =
     [HashReference ''refs/heads/main'' 161,
      SymbolicReference ''HEAD'' ''refs/heads/main'']"

section \<open>Properties of the URI router\<close>

lemma Index_single: "Index s [c] = None \<longleftrightarrow> c \<notin> set s"
  by (induction s) auto

lemma Index_single_Some:
  "Index s [c] = Some m \<Longrightarrow> count_list s c = Suc (count_list (drop (Suc m) s) c)"
  by (induction s arbitrary: m) (auto split: if_splits)

lemma Index_single_split:
  "Index s [c] = Some m \<Longrightarrow> s = take m s @ c # drop (Suc m) s \<and> c \<notin> set (take m s)"
  by (induction s arbitrary: m) (auto split: if_splits)

lemma count_list_0: "c \<notin> set s \<Longrightarrow> count_list s c = 0"
  by (induction s) auto

lemma count_list_pos: "0 < count_list s c \<Longrightarrow> \<exists>m. Index s [c] = Some m"
  by (cases "Index s [c]") (auto simp: Index_single count_list_0)

lemma length_SplitN: "length (SplitN s [c] (Suc n)) = min (Suc n) (Suc (count_list s c))"
proof (induction n arbitrary: s)
  case 0
  show ?case by simp
next
  case (Suc n)
  show ?case
  proof (cases "Index s [c]")
    case None
    then have "count_list s c = 0" by (simp add: Index_single count_list_0)
    with None show ?thesis by simp
  next
    case (Some m)
    from Index_single_Some [OF Some] Suc [of "drop (Suc m) s"] Some
    show ?thesis by simp
  qed
qed

lemma SplitN_2:
  assumes "1 \<le> count_list s c"
  shows "\<exists>a r. SplitN s [c] 2 = [a, r] \<and> s = a @ c # r \<and> c \<notin> set a"
proof -
  from assms obtain m where m: "Index s [c] = Some m"
    using count_list_pos [of s c] by auto
  have "SplitN s [c] 2 = [take m s, drop (Suc m) s]"
    using m by (simp add: numeral_2_eq_2)
  with Index_single_split [OF m] show ?thesis by blast
qed

lemma SplitN_3:
  assumes "2 \<le> count_list s c"
  shows "\<exists>a b r. SplitN s [c] 3 = [a, b, r] \<and> s = a @ c # b @ c # r
           \<and> c \<notin> set a \<and> c \<notin> set b"
proof -
  from assms obtain m where m: "Index s [c] = Some m"
    using count_list_pos [of s c] by auto
  let ?t = "drop (Suc m) s"
  from Index_single_Some [OF m] assms have "1 \<le> count_list ?t c" by simp
  from SplitN_2 [OF this] obtain b r where
    br: "SplitN ?t [c] 2 = [b, r]" "?t = b @ c # r" "c \<notin> set b" by blast
  have "SplitN s [c] 3 = take m s # SplitN ?t [c] 2"
    using m by (simp add: numeral_3_eq_3 numeral_2_eq_2)
  with br Index_single_split [OF m] show ?thesis by (metis)
qed

lemma SplitN_4:
  assumes "3 \<le> count_list s c"
  shows "\<exists>a b d r. SplitN s [c] 4 = [a, b, d, r] \<and> s = a @ c # b @ c # d @ c # r
           \<and> c \<notin> set a \<and> c \<notin> set b \<and> c \<notin> set d"
proof -
  from assms obtain m where m: "Index s [c] = Some m"
    using count_list_pos [of s c] by auto
  let ?t = "drop (Suc m) s"
  from Index_single_Some [OF m] assms have "2 \<le> count_list ?t c" by simp
  from SplitN_3 [OF this] obtain b d r where
    br: "SplitN ?t [c] 3 = [b, d, r]" "?t = b @ c # d @ c # r" "c \<notin> set b" "c \<notin> set d" by blast
  have "SplitN s [c] 4 = take m s # SplitN ?t [c] 3"
    using m by (simp add: eval_nat_numeral)
  with br Index_single_split [OF m] show ?thesis by (metis)
qed

lemma SplitN_4_short: "count_list s c < 3 \<Longrightarrow> length (SplitN s [c] 4) < 4"
  using length_SplitN [of s c 3] by (simp add: eval_nat_numeral)

lemma SplitN_3_short: "count_list s c < 2 \<Longrightarrow> length (SplitN s [c] 3) < 3"
  using length_SplitN [of s c 2] by (simp add: eval_nat_numeral)

lemma case4_short: "length xs < 4 \<Longrightarrow> (case xs of [a, b, c, d] \<Rightarrow> f a b c d | _ \<Rightarrow> g) = g"
  by (auto split: list.splits)

lemma case3_short: "length xs < 3 \<Longrightarrow> (case xs of [a, b, c] \<Rightarrow> f a b c | _ \<Rightarrow> g) = g"
  by (auto split: list.splits)



lemma router_short4:
  assumes "segment_count u < 4"
  shows "(case SplitN (Path u) ''/'' 4 of [a, b, c, d] \<Rightarrow> f a b c d | _ \<Rightarrow> g) = g"
proof -
  from assms have "length (SplitN (Path u) ''/'' 4) < 4"
    by (intro SplitN_4_short) (simp add: segment_count_def)
  then show ?thesis by (rule case4_short)
qed

lemma router_short3:
  assumes "segment_count u < 3"
  shows "(case SplitN (Path u) ''/'' 3 of [a, b, c] \<Rightarrow> f a b c | _ \<Rightarrow> g) = g"
proof -
  from assms have "length (SplitN (Path u) ''/'' 3) < 3"
    by (intro SplitN_3_short) (simp add: segment_count_def)
  then show ?thesis by (rule case3_short)
qed

lemma router_long4:
  assumes "\<not> segment_count u < 4"
  shows "\<exists>sl0 sl1 sl2 sl3.
           SplitN (Path u) ''/'' 4 = [sl0, sl1, sl2, sl3]
         \<and> Path u = sl0 @ ''/'' @ sl1 @ ''/'' @ sl2 @ ''/'' @ sl3
         \<and> CHR ''/'' \<notin> set sl0 \<union> set sl1 \<union> set sl2"
proof -
  from assms have "3 \<le> count_list (Path u) CHR ''/''"
    by (simp add: segment_count_def)
  from SplitN_4 [OF this] show ?thesis by fastforce
qed

lemma router_long3:
  assumes "\<not> segment_count u < 3"
  shows "\<exists>sl0 sl1 sl2.
           SplitN (Path u) ''/'' 3 = [sl0, sl1, sl2]
         \<and> Path u = sl0 @ ''/'' @ sl1 @ ''/'' @ sl2
         \<and> CHR ''/'' \<notin> set sl0 \<union> set sl1"
proof -
  from assms have "2 \<le> count_list (Path u) CHR ''/''"
    by (simp add: segment_count_def)
  from SplitN_3 [OF this] show ?thesis by fastforce
qed

lemma git_short:
  assumes "Scheme u = ''git''" "segment_count u < 4"
  shows "GetFrom (Inr u) uri = Inl (NotMatch uri ''git://owner/repository/branch/name'')
       \<and> PutIn (Inr u) uri = Inl (NotMatch uri ''git://owner/repository/branch/name'')
       \<and> PutInWithFile (Inr u) uri filename
           = Inl (NotMatch uri ''git://owner/repository/branch/name'')"
  using assms(1) by (simp add: GetFrom_def PutIn_def PutInWithFile_def router_short4 [OF assms(2)])

lemma asset_short:
  assumes "Scheme u = ''asset''" "segment_count u < 4"
  shows "GetFrom (Inr u) uri = Inl (NotMatch uri ''asset://owner/repository/release/name'')
       \<and> PutIn (Inr u) uri = Inl (NotMatch uri ''asset://owner/repository/release/name'')
       \<and> PutInWithFile (Inr u) uri filename
           = Inl (NotMatch uri ''asset://owner/repository/release/name'')"
  using assms(1) by (simp add: GetFrom_def PutIn_def PutInWithFile_def router_short4 [OF assms(2)])

lemma gist_short:
  assumes "Scheme u = ''gist''" "segment_count u < 3"
  shows "GetFrom (Inr u) uri = Inl (NotMatch uri ''gist://owner/gist_id/name'')
       \<and> PutIn (Inr u) uri = Inl (NotMatch uri ''gist://owner/gist_id/name'')
       \<and> PutInWithFile (Inr u) uri filename
           = Inl (NotMatch uri ''gist://owner/gist_id/name'')"
  using assms(1) by (simp add: GetFrom_def PutIn_def PutInWithFile_def router_short3 [OF assms(2)])

lemma git_long:
  assumes "Scheme u = ''git''" "\<not> segment_count u < 4"
  shows "\<exists>sl0 repo branch name.
           Path u = sl0 @ ''/'' @ repo @ ''/'' @ branch @ ''/'' @ name
         \<and> CHR ''/'' \<notin> set sl0 \<union> set repo \<union> set branch
         \<and> GetFrom (Inr u) uri = Inr (Call_GetFromGit (Host u) repo branch name)
         \<and> PutIn (Inr u) uri = Inr (Call_putInGit (Host u) repo branch name)
         \<and> PutInWithFile (Inr u) uri filename
             = Inr (Call_putInGitWithFile (Host u) repo branch name filename)"
proof -
  from router_long4 [OF assms(2)] obtain sl0 sl1 sl2 sl3 where
    sl: "SplitN (Path u) ''/'' 4 = [sl0, sl1, sl2, sl3]" and
    p: "Path u = sl0 @ ''/'' @ sl1 @ ''/'' @ sl2 @ ''/'' @ sl3" and
    n: "CHR ''/'' \<notin> set sl0 \<union> set sl1 \<union> set sl2"
    by blast
  have "GetFrom (Inr u) uri = Inr (Call_GetFromGit (Host u) sl1 sl2 sl3)"
    "PutIn (Inr u) uri = Inr (Call_putInGit (Host u) sl1 sl2 sl3)"
    "PutInWithFile (Inr u) uri filename
       = Inr (Call_putInGitWithFile (Host u) sl1 sl2 sl3 filename)"
    using assms(1) sl by (simp_all add: GetFrom_def PutIn_def PutInWithFile_def)
  with p n show ?thesis by blast
qed

lemma asset_long:
  assumes "Scheme u = ''asset''" "\<not> segment_count u < 4"
  shows "\<exists>sl0 repo release name.
           Path u = sl0 @ ''/'' @ repo @ ''/'' @ release @ ''/'' @ name
         \<and> CHR ''/'' \<notin> set sl0 \<union> set repo \<union> set release
         \<and> GetFrom (Inr u) uri = Inr (Call_GetFromReleasesAsset (Host u) repo release name)
         \<and> PutIn (Inr u) uri = Inr (Call_putInReleasesAsset (Host u) repo release name)
         \<and> PutInWithFile (Inr u) uri filename
             = Inr (Call_putInReleasesAssetWithFile (Host u) repo release name filename)"
proof -
  from router_long4 [OF assms(2)] obtain sl0 sl1 sl2 sl3 where
    sl: "SplitN (Path u) ''/'' 4 = [sl0, sl1, sl2, sl3]" and
    p: "Path u = sl0 @ ''/'' @ sl1 @ ''/'' @ sl2 @ ''/'' @ sl3" and
    n: "CHR ''/'' \<notin> set sl0 \<union> set sl1 \<union> set sl2"
    by blast
  have "GetFrom (Inr u) uri = Inr (Call_GetFromReleasesAsset (Host u) sl1 sl2 sl3)"
    "PutIn (Inr u) uri = Inr (Call_putInReleasesAsset (Host u) sl1 sl2 sl3)"
    "PutInWithFile (Inr u) uri filename
       = Inr (Call_putInReleasesAssetWithFile (Host u) sl1 sl2 sl3 filename)"
    using assms(1) sl by (simp_all add: GetFrom_def PutIn_def PutInWithFile_def)
  with p n show ?thesis by blast
qed

lemma gist_long:
  assumes "Scheme u = ''gist''" "\<not> segment_count u < 3"
  shows "\<exists>sl0 gistId name.
           Path u = sl0 @ ''/'' @ gistId @ ''/'' @ name
         \<and> CHR ''/'' \<notin> set sl0 \<union> set gistId
         \<and> GetFrom (Inr u) uri = Inr (Call_GetFromGist (Host u) gistId name)
         \<and> PutIn (Inr u) uri = Inr (Call_putInGist (Host u) gistId name)
         \<and> PutInWithFile (Inr u) uri filename
             = Inr (Call_putInGistWithFile (Host u) gistId name filename)"
proof -
  from router_long3 [OF assms(2)] obtain sl0 sl1 sl2 where
    sl: "SplitN (Path u) ''/'' 3 = [sl0, sl1, sl2]" and
    p: "Path u = sl0 @ ''/'' @ sl1 @ ''/'' @ sl2" and
    n: "CHR ''/'' \<notin> set sl0 \<union> set sl1"
    by blast
  have "GetFrom (Inr u) uri = Inr (Call_GetFromGist (Host u) sl1 sl2)"
    "PutIn (Inr u) uri = Inr (Call_putInGist (Host u) sl1 sl2)"
    "PutInWithFile (Inr u) uri filename = Inr (Call_putInGistWithFile (Host u) sl1 sl2 filename)"
    using assms(1) sl by (simp_all add: GetFrom_def PutIn_def PutInWithFile_def)
  with p n show ?thesis by blast
qed

text \<open>
  Claim C3, as the code has it. For a parsed address of one of the three schemes, each
  router function (\<open>GetFrom\<close>, \<open>PutIn\<close>, \<open>PutInWithFile\<close>) fails with the error that
  carries the address and the expected pattern exactly when the address has fewer
  segments than the scheme's arity (git 4, asset 4, gist 3). With at least that many
  segments it dispatches to the scheme's driver: the parameters are the host and the
  pieces of the path between its first separators, none of which contains a
  separator, and the last parameter is all the rest of the path, separators included,
  for every scheme. So \<^verbatim>\<open>git://a/b\<close> fails, \<^verbatim>\<open>git://a/b/c/d\<close> dispatches with
  \<open>a\<close>, \<open>b\<close>, \<open>c\<close>, \<open>d\<close>, and \<^verbatim>\<open>git://a/b/c/d/e\<close> dispatches with the name
  \<^verbatim>\<open>d/e\<close>.
\<close>

theorem router_arity:
  "(Scheme u = ''git'' \<longrightarrow>
      (if segment_count u < 4
       then GetFrom (Inr u) uri = Inl (NotMatch uri ''git://owner/repository/branch/name'')
          \<and> PutIn (Inr u) uri = Inl (NotMatch uri ''git://owner/repository/branch/name'')
          \<and> PutInWithFile (Inr u) uri filename
              = Inl (NotMatch uri ''git://owner/repository/branch/name'')
       else \<exists>sl0 repo branch name.
              Path u = sl0 @ ''/'' @ repo @ ''/'' @ branch @ ''/'' @ name
            \<and> CHR ''/'' \<notin> set sl0 \<union> set repo \<union> set branch
            \<and> GetFrom (Inr u) uri = Inr (Call_GetFromGit (Host u) repo branch name)
            \<and> PutIn (Inr u) uri = Inr (Call_putInGit (Host u) repo branch name)
            \<and> PutInWithFile (Inr u) uri filename
                = Inr (Call_putInGitWithFile (Host u) repo branch name filename)))
 \<and> (Scheme u = ''asset'' \<longrightarrow>
      (if segment_count u < 4
       then GetFrom (Inr u) uri = Inl (NotMatch uri ''asset://owner/repository/release/name'')
          \<and> PutIn (Inr u) uri = Inl (NotMatch uri ''asset://owner/repository/release/name'')
          \<and> PutInWithFile (Inr u) uri filename
              = Inl (NotMatch uri ''asset://owner/repository/release/name'')
       else \<exists>sl0 repo release name.
              Path u = sl0 @ ''/'' @ repo @ ''/'' @ release @ ''/'' @ name
            \<and> CHR ''/'' \<notin> set sl0 \<union> set repo \<union> set release
            \<and> GetFrom (Inr u) uri = Inr (Call_GetFromReleasesAsset (Host u) repo release name)
            \<and> PutIn (Inr u) uri = Inr (Call_putInReleasesAsset (Host u) repo release name)
            \<and> PutInWithFile (Inr u) uri filename
                = Inr (Call_putInReleasesAssetWithFile (Host u) repo release name filename)))
 \<and> (Scheme u = ''gist'' \<longrightarrow>
      (if segment_count u < 3
       then GetFrom (Inr u) uri = Inl (NotMatch uri ''gist://owner/gist_id/name'')
          \<and> PutIn (Inr u) uri = Inl (NotMatch uri ''gist://owner/gist_id/name'')
          \<and> PutInWithFile (Inr u) uri filename = Inl (NotMatch uri ''gist://owner/gist_id/name'')
       else \<exists>sl0 gistId name.
              Path u = sl0 @ ''/'' @ gistId @ ''/'' @ name
            \<and> CHR ''/'' \<notin> set sl0 \<union> set gistId
            \<and> GetFrom (Inr u) uri = Inr (Call_GetFromGist (Host u) gistId name)
            \<and> PutIn (Inr u) uri = Inr (Call_putInGist (Host u) gistId name)
            \<and> PutInWithFile (Inr u) uri filename
                = Inr (Call_putInGistWithFile (Host u) gistId name filename)))
 \<and> GetFrom (Inr \<lparr>Scheme = ''git'', Host = ''a'', Path = ''/b''\<rparr>) ''git://a/b''
     = Inl (NotMatch ''git://a/b'' ''git://owner/repository/branch/name'')
 \<and> GetFrom (Inr \<lparr>Scheme = ''git'', Host = ''a'', Path = ''/b/c/d''\<rparr>) ''git://a/b/c/d''
     = Inr (Call_GetFromGit ''a'' ''b'' ''c'' ''d'')
 \<and> PutIn (Inr \<lparr>Scheme = ''git'', Host = ''a'', Path = ''/b/c/d/e''\<rparr>) ''git://a/b/c/d/e''
     = Inr (Call_putInGit ''a'' ''b'' ''c'' ''d/e'')"
proof (intro conjI impI)
  assume "Scheme u = ''git''"
  then show "if segment_count u < 4
       then GetFrom (Inr u) uri = Inl (NotMatch uri ''git://owner/repository/branch/name'')
          \<and> PutIn (Inr u) uri = Inl (NotMatch uri ''git://owner/repository/branch/name'')
          \<and> PutInWithFile (Inr u) uri filename
              = Inl (NotMatch uri ''git://owner/repository/branch/name'')
       else \<exists>sl0 repo branch name.
              Path u = sl0 @ ''/'' @ repo @ ''/'' @ branch @ ''/'' @ name
            \<and> CHR ''/'' \<notin> set sl0 \<union> set repo \<union> set branch
            \<and> GetFrom (Inr u) uri = Inr (Call_GetFromGit (Host u) repo branch name)
            \<and> PutIn (Inr u) uri = Inr (Call_putInGit (Host u) repo branch name)
            \<and> PutInWithFile (Inr u) uri filename
                = Inr (Call_putInGitWithFile (Host u) repo branch name filename)"
    using git_short [of u uri filename] git_long [of u uri filename]
    by (cases "segment_count u < 4") simp_all
next
  assume "Scheme u = ''asset''"
  then show "if segment_count u < 4
       then GetFrom (Inr u) uri = Inl (NotMatch uri ''asset://owner/repository/release/name'')
          \<and> PutIn (Inr u) uri = Inl (NotMatch uri ''asset://owner/repository/release/name'')
          \<and> PutInWithFile (Inr u) uri filename
              = Inl (NotMatch uri ''asset://owner/repository/release/name'')
       else \<exists>sl0 repo release name.
              Path u = sl0 @ ''/'' @ repo @ ''/'' @ release @ ''/'' @ name
            \<and> CHR ''/'' \<notin> set sl0 \<union> set repo \<union> set release
            \<and> GetFrom (Inr u) uri = Inr (Call_GetFromReleasesAsset (Host u) repo release name)
            \<and> PutIn (Inr u) uri = Inr (Call_putInReleasesAsset (Host u) repo release name)
            \<and> PutInWithFile (Inr u) uri filename
                = Inr (Call_putInReleasesAssetWithFile (Host u) repo release name filename)"
    using asset_short [of u uri filename] asset_long [of u uri filename]
    by (cases "segment_count u < 4") simp_all
next
  assume "Scheme u = ''gist''"
  then show "if segment_count u < 3
       then GetFrom (Inr u) uri = Inl (NotMatch uri ''gist://owner/gist_id/name'')
          \<and> PutIn (Inr u) uri = Inl (NotMatch uri ''gist://owner/gist_id/name'')
          \<and> PutInWithFile (Inr u) uri filename = Inl (NotMatch uri ''gist://owner/gist_id/name'')
       else \<exists>sl0 gistId name.
              Path u = sl0 @ ''/'' @ gistId @ ''/'' @ name
            \<and> CHR ''/'' \<notin> set sl0 \<union> set gistId
            \<and> GetFrom (Inr u) uri = Inr (Call_GetFromGist (Host u) gistId name)
            \<and> PutIn (Inr u) uri = Inr (Call_putInGist (Host u) gistId name)
            \<and> PutInWithFile (Inr u) uri filename
                = Inr (Call_putInGistWithFile (Host u) gistId name filename)"
    using gist_short [of u uri filename] gist_long [of u uri filename]
    by (cases "segment_count u < 3") simp_all
qed (simp_all add: GetFrom_def PutIn_def eval_nat_numeral)

text \<open>The theorem at the asset address \<^verbatim>\<open>asset://o/r\<close>, of two segments.\<close>

theorem router_arity_witness:
  "Scheme \<lparr>Scheme = ''asset'', Host = ''o'', Path = ''/r''\<rparr> = ''asset''
   \<and> segment_count \<lparr>Scheme = ''asset'', Host = ''o'', Path = ''/r''\<rparr> < 4
   \<and> PutIn (Inr \<lparr>Scheme = ''asset'', Host = ''o'', Path = ''/r''\<rparr>) ''asset://o/r''
       = Inl (NotMatch ''asset://o/r'' ''asset://owner/repository/release/name'')"
  using router_arity [of "\<lparr>Scheme = ''asset'', Host = ''o'', Path = ''/r''\<rparr>" "''asset://o/r''"]
  by (simp add: segment_count_def)

text \<open>
  Claim C3 as stated asks for a failure whenever the segment count differs from the
  arity. The asset address \<^verbatim>\<open>asset://o/r/v1/dir/file\<close> has five segments, not four,
  and is dispatched, with the asset name \<^verbatim>\<open>dir/file\<close>.
\<close>

theorem router_arity_counterexample:
  "segment_count \<lparr>Scheme = ''asset'', Host = ''o'', Path = ''/r/v1/dir/file''\<rparr> \<noteq> 4
   \<and> GetFrom (Inr \<lparr>Scheme = ''asset'', Host = ''o'', Path = ''/r/v1/dir/file''\<rparr>)
        ''asset://o/r/v1/dir/file''
     = Inr (Call_GetFromReleasesAsset ''o'' ''r'' ''v1'' ''dir/file'')
   \<and> PutIn (Inr \<lparr>Scheme = ''asset'', Host = ''o'', Path = ''/r/v1/dir/file''\<rparr>)
        ''asset://o/r/v1/dir/file''
     = Inr (Call_putInReleasesAsset ''o'' ''r'' ''v1'' ''dir/file'')"
  by (simp add: segment_count_def GetFrom_def PutIn_def eval_nat_numeral)

section \<open>Properties of the auto-closing reader\<close>

lemma Reads_calls:
  "Reads rc (h, calls) ps = (ress, (h', calls')) \<Longrightarrow>
     length ress = length ps \<and>
     calls' = calls @ concat (map2 (\<lambda>p res. if snd res = Some EOF
                                            then [Called_Read p, Called_Close]
                                            else [Called_Read p]) ps ress)"
proof (induction ps arbitrary: h calls ress)
  case Nil
  then show ?case by simp
next
  case (Cons p ps)
  obtain n err h1 where r: "rc_Read rc h p = ((n, err), h1)"
    by (metis prod.exhaust)
  obtain ce h2 where c: "rc_Close rc h1 = (ce, h2)"
    by (metis prod.exhaust)
  show ?case
  proof (cases "err = Some EOF")
    case True
    with r c have step: "readerWithAutoCloser_Read rc (h, calls) p
        = ((n, err), (h2, calls @ [Called_Read p, Called_Close]))"
      by (simp add: readerWithAutoCloser_Read_def)
    obtain ress1 where rest: "Reads rc (h2, calls @ [Called_Read p, Called_Close]) ps
        = (ress1, (h', calls'))" and ress: "ress = (n, err) # ress1"
      using Cons.prems step by (auto split: prod.splits)
    from Cons.IH [OF rest] ress True show ?thesis by simp
  next
    case False
    with r have step: "readerWithAutoCloser_Read rc (h, calls) p
        = ((n, err), (h1, calls @ [Called_Read p]))"
      by (simp add: readerWithAutoCloser_Read_def)
    obtain ress1 where rest: "Reads rc (h1, calls @ [Called_Read p]) ps
        = (ress1, (h', calls'))" and ress: "ress = (n, err) # ress1"
      using Cons.prems step by (auto split: prod.splits)
    from Cons.IH [OF rest] ress False show ?thesis by simp
  qed
qed

lemma count_Close_map2:
  "length ps = length ress \<Longrightarrow>
   count_list (concat (map2 (\<lambda>p res. if snd res = Some EOF
                                            then [Called_Read p, Called_Close]
                                            else [Called_Read p]) ps ress)) Called_Close
     = length (filter (\<lambda>res. snd res = Some EOF) ress)"
  by (induction ps ress rule: list_induct2) auto

lemma fileHandle_closed:
  "Reads fileHandle ((left, True), calls) ps = (ress, (h', calls')) \<Longrightarrow>
     count_list calls' Called_Close = count_list calls Called_Close"
proof (induction ps arbitrary: calls ress)
  case Nil
  then show ?case by simp
next
  case (Cons p ps)
  have step: "readerWithAutoCloser_Read fileHandle ((left, True), calls) p
      = ((0, Some (Failure ''file already closed'')), ((left, True), calls @ [Called_Read p]))"
    by (simp add: readerWithAutoCloser_Read_def fileHandle_def)
  obtain ress1 where rest: "Reads fileHandle ((left, True), calls @ [Called_Read p]) ps
        = (ress1, (h', calls'))"
    using Cons.prems step by (auto split: prod.splits)
  from Cons.IH [OF rest] show ?case by simp
qed

lemma fileHandle_open:
  "Reads fileHandle ((left, False), calls) ps = (ress, (h', calls')) \<Longrightarrow>
     count_list calls' Called_Close \<le> Suc (count_list calls Called_Close)"
proof (induction ps arbitrary: left calls ress)
  case Nil
  then show ?case by simp
next
  case (Cons p ps)
  show ?case
  proof (cases "left = 0")
    case True
    have step: "readerWithAutoCloser_Read fileHandle ((left, False), calls) p
      = ((0, Some EOF), ((left, True), calls @ [Called_Read p, Called_Close]))"
      using True by (simp add: readerWithAutoCloser_Read_def fileHandle_def)
    obtain ress1 where rest:
      "Reads fileHandle ((left, True), calls @ [Called_Read p, Called_Close]) ps
        = (ress1, (h', calls'))"
      using Cons.prems step by (auto split: prod.splits)
    from fileHandle_closed [OF rest] show ?thesis by simp
  next
    case False
    have step: "readerWithAutoCloser_Read fileHandle ((left, False), calls) p
      = ((min p left, None), ((left - min p left, False), calls @ [Called_Read p]))"
      using False by (simp add: readerWithAutoCloser_Read_def fileHandle_def)
    obtain ress1 where rest:
      "Reads fileHandle ((left - min p left, False), calls @ [Called_Read p]) ps
        = (ress1, (h', calls'))"
      using Cons.prems step by (auto split: prod.splits)
    from Cons.IH [OF rest] show ?thesis by simp
  qed
qed

text \<open>
  Claim C9, as the code has it. For every wrapped handle and every sequence of reads
  on the auto-closing reader, the calls made on the handle are the reads in order,
  each read that returned \<^verbatim>\<open>io.EOF\<close> followed at once by one \<^verbatim>\<open>Close\<close>, and
  nothing else: \<^verbatim>\<open>Close\<close> is called as many times as reads returned \<^verbatim>\<open>io.EOF\<close>.
  So it is never called when no read reached the end, it is first called at the first
  read that did, and it is called once in total when only one read reports the end,
  as on a handle that fails with another error once it is closed: on \<open>fileHandle\<close>
  there is at most one \<^verbatim>\<open>Close\<close> whatever the reads.
\<close>

theorem auto_close_at_each_EOF:
  "(Reads rc (h, []) ps = (ress, (h', calls)) \<longrightarrow>
      length ress = length ps
    \<and> calls = concat (map2 (\<lambda>p res. if snd res = Some EOF
                                     then [Called_Read p, Called_Close]
                                     else [Called_Read p]) ps ress)
    \<and> count_list calls Called_Close = length (filter (\<lambda>res. snd res = Some EOF) ress))
 \<and> count_list (snd (snd (Reads fileHandle ((left, False), []) ps))) Called_Close \<le> 1"
proof (intro conjI impI)
  assume a: "Reads rc (h, []) ps = (ress, (h', calls))"
  from Reads_calls [OF a] show "length ress = length ps" by simp
  from Reads_calls [OF a]
  show c: "calls = concat (map2 (\<lambda>p res. if snd res = Some EOF
                                     then [Called_Read p, Called_Close]
                                     else [Called_Read p]) ps ress)" by simp
  from Reads_calls [OF a] have "length ps = length ress" by simp
  from count_Close_map2 [OF this] c
  show "count_list calls Called_Close = length (filter (\<lambda>res. snd res = Some EOF) ress)"
    by simp
next
  obtain ress h' calls' where
    r: "Reads fileHandle ((left, False), []) ps = (ress, (h', calls'))"
    by (metis prod.exhaust)
  from fileHandle_open [OF r] r
  show "count_list (snd (snd (Reads fileHandle ((left, False), []) ps))) Called_Close \<le> 1"
    by simp
qed

text \<open>The theorem on a file of ten bytes read four times with a buffer of eight.\<close>

theorem auto_close_at_each_EOF_witness:
  "Reads fileHandle ((10, False), []) [8, 8, 8, 8]
     = ([(8, None), (2, None), (0, Some EOF), (0, Some (Failure ''file already closed''))],
        ((0, True), [Called_Read 8, Called_Read 8, Called_Read 8, Called_Close, Called_Read 8]))
   \<and> count_list [Called_Read 8, Called_Read 8, Called_Read 8, Called_Close, Called_Read 8]
        Called_Close = 1"
proof -
  have r: "Reads fileHandle ((10, False), []) [8, 8, 8, 8]
     = ([(8, None), (2, None), (0, Some EOF), (0, Some (Failure ''file already closed''))],
        ((0, True), [Called_Read 8, Called_Read 8, Called_Read 8, Called_Close, Called_Read 8]))"
    by (simp add: readerWithAutoCloser_Read_def fileHandle_def)
  from auto_close_at_each_EOF [of fileHandle "(10, False)" "[8, 8, 8, 8]"
      "[(8, None), (2, None), (0, Some EOF), (0, Some (Failure ''file already closed''))]"
      "(0, True)" "[Called_Read 8, Called_Read 8, Called_Read 8, Called_Close, Called_Read 8]"] r
  show ?thesis by simp
qed

text \<open>
  Claim C9 as stated bounds the calls of \<^verbatim>\<open>Close\<close> by one for every sequence of
  reads. On an empty byte reader behind a closer that does nothing, as the body of an
  HTTP response without content is, two reads both report the end and \<^verbatim>\<open>Close\<close>
  is called twice.
\<close>

theorem auto_close_once_counterexample:
  "snd (snd (Reads nopCloser (0, []) [8, 8]))
     = [Called_Read 8, Called_Close, Called_Read 8, Called_Close]
   \<and> count_list (snd (snd (Reads nopCloser (0, []) [8, 8]))) Called_Close = 2"
  by (simp add: readerWithAutoCloser_Read_def nopCloser_def)

section \<open>Properties of the scanners\<close>

lemma eachGist_prefix:
  "goes_on next s pre = Some s' \<Longrightarrow>
     eachGist next (pre @ rest) page s
       = (butlast (page # map next_page pre)
            @ fst (eachGist next rest (last (page # map next_page pre)) s'),
          snd (eachGist next rest (last (page # map next_page pre)) s'))"
proof (induction pre arbitrary: page s)
  case Nil
  then show ?case by simp
next
  case (Cons a pre)
  obtain list resp err where a: "a = (list, resp, err)" by (cases a) auto
  from Cons.prems obtain r :: Response and s1 where
    e: "err = None" and n: "run_next next s list = Inr (True, s1)" and
    r: "resp = Some r" "NextPage r \<noteq> 0" and g: "goes_on next s1 pre = Some s'"
    unfolding a by (auto split: option.splits sum.splits if_splits)
  from Cons.IH [OF g, of "NextPage r"] a e n r
  show ?case by (simp add: next_page_def)
qed

lemma eachReleases_prefix:
  "goes_on next s pre = Some s' \<Longrightarrow>
     eachReleases next (pre @ rest) page s
       = (butlast (page # map next_page pre)
            @ fst (eachReleases next rest (last (page # map next_page pre)) s'),
          snd (eachReleases next rest (last (page # map next_page pre)) s'))"
proof (induction pre arbitrary: page s)
  case Nil
  then show ?case by simp
next
  case (Cons a pre)
  obtain list resp err where a: "a = (list, resp, err)" by (cases a) auto
  from Cons.prems obtain r :: Response and s1 where
    e: "err = None" and n: "run_next next s list = Inr (True, s1)" and
    r: "resp = Some r" "NextPage r \<noteq> 0" and g: "goes_on next s1 pre = Some s'"
    unfolding a by (auto split: option.splits sum.splits if_splits)
  from Cons.IH [OF g, of "NextPage r"] a e n r
  show ?case by (simp add: next_page_def)
qed

lemma butlast_last_pages:
  "butlast (page # map next_page pre) @ [last (page # map next_page pre)]
     = page # map next_page pre"
  by (rule append_butlast_last_id) simp

lemma eachGist_exact:
  assumes "goes_on next s pre = Some s'"
  shows "eachGist next pre page s = (page # map next_page pre, None)"
    and "run_next next s' list = Inr (False, s1) \<Longrightarrow>
           eachGist next (pre @ (list, resp, None) # post) page s
             = (page # map next_page pre, Some (None, s1))"
    and "run_next next s' list = Inr (True, s1) \<Longrightarrow> NextPage r = 0 \<Longrightarrow>
           eachGist next (pre @ (list, Some r, None) # post) page s
             = (page # map next_page pre, Some (None, s1))"
    and "eachGist next (pre @ (list, resp, Some e) # post) page s
           = (page # map next_page pre,
              Some (case resp of
                      Some r \<Rightarrow> if StatusCode r = StatusNotFound then None else Some e
                    | None \<Rightarrow> Some e, s'))"
    and "run_next next s' list = Inl panic \<Longrightarrow>
           eachGist next (pre @ (list, resp, None) # post) page s
             = (page # map next_page pre, Some (Some panic, s'))"
    and "run_next next s' list = Inr (True, s1) \<Longrightarrow>
           eachGist next (pre @ (list, None, None) # post) page s
             = (page # map next_page pre, Some (Some NilDereference, s1))"
  using eachGist_prefix [OF assms, of "[]" page]
    eachGist_prefix [OF assms, of "(list, resp, None) # post" page]
    eachGist_prefix [OF assms, of "(list, Some r, None) # post" page]
    eachGist_prefix [OF assms, of "(list, resp, Some e) # post" page]
    eachGist_prefix [OF assms, of "(list, None, None) # post" page]
    butlast_last_pages [of page pre]
  by (simp_all split: option.splits)

lemma eachReleases_exact:
  assumes "goes_on next s pre = Some s'"
  shows "eachReleases next pre page s = (page # map next_page pre, None)"
    and "run_next next s' list = Inr (False, s1) \<Longrightarrow>
           eachReleases next (pre @ (list, resp, None) # post) page s
             = (page # map next_page pre, Some (None, s1))"
    and "run_next next s' list = Inr (True, s1) \<Longrightarrow> NextPage r = 0 \<Longrightarrow>
           eachReleases next (pre @ (list, Some r, None) # post) page s
             = (page # map next_page pre, Some (None, s1))"
    and "eachReleases next (pre @ (list, resp, Some e) # post) page s
           = (page # map next_page pre,
              Some (case resp of
                      Some r \<Rightarrow> if StatusCode r = StatusNotFound then None else Some e
                    | None \<Rightarrow> Some e, s'))"
    and "run_next next s' list = Inl panic \<Longrightarrow>
           eachReleases next (pre @ (list, resp, None) # post) page s
             = (page # map next_page pre, Some (Some panic, s'))"
    and "run_next next s' list = Inr (True, s1) \<Longrightarrow>
           eachReleases next (pre @ (list, None, None) # post) page s
             = (page # map next_page pre, Some (Some NilDereference, s1))"
  using eachReleases_prefix [OF assms, of "[]" page]
    eachReleases_prefix [OF assms, of "(list, resp, None) # post" page]
    eachReleases_prefix [OF assms, of "(list, Some r, None) # post" page]
    eachReleases_prefix [OF assms, of "(list, resp, Some e) # post" page]
    eachReleases_prefix [OF assms, of "(list, None, None) # post" page]
    butlast_last_pages [of page pre]
  by (simp_all split: option.splits)

text \<open>
  Claim C6. Both scanners, on every sequence of answers of the remote, with every
  callback and from every closure state. Let \<open>pre\<close> be answers after each of which the
  scan goes on, the callback being run at the state the scan has then. The scan
  requests the first page and then, one after the other, the page each answer of
  \<open>pre\<close> advertises, and asks for the last of them also when no answer is left. If the
  callback returns false on the next answer, whatever next page that answer
  advertises and whatever answers would follow, the scan returns without error having
  requested exactly those pages and no further one. If the callback returns true and
  the answer reports no next page, the scan returns the same way. If the next answer
  is an error, the scan stops there with that error, or without error when the
  response says not found. A panic of the callback, or a nil response where the next
  page is read, ends the scan at the same request.
\<close>

theorem scan_short_circuit:
  "(goes_on gnext s gpre = Some s' \<longrightarrow>
      eachGist gnext gpre page s = (page # map next_page gpre, None)
    \<and> (run_next gnext s' glist = Inr (False, s1) \<longrightarrow>
          eachGist gnext (gpre @ (glist, gresp, None) # gpost) page s
            = (page # map next_page gpre, Some (None, s1)))
    \<and> (run_next gnext s' glist = Inr (True, s1) \<and> NextPage gr = 0 \<longrightarrow>
          eachGist gnext (gpre @ (glist, Some gr, None) # gpost) page s
            = (page # map next_page gpre, Some (None, s1)))
    \<and> eachGist gnext (gpre @ (glist, gresp, Some e) # gpost) page s
        = (page # map next_page gpre,
           Some (case gresp of
                   Some r \<Rightarrow> if StatusCode r = StatusNotFound then None else Some e
                 | None \<Rightarrow> Some e, s'))
    \<and> (run_next gnext s' glist = Inl panic \<longrightarrow>
          eachGist gnext (gpre @ (glist, gresp, None) # gpost) page s
            = (page # map next_page gpre, Some (Some panic, s')))
    \<and> (run_next gnext s' glist = Inr (True, s1) \<longrightarrow>
          eachGist gnext (gpre @ (glist, None, None) # gpost) page s
            = (page # map next_page gpre, Some (Some NilDereference, s1))))
 \<and> (goes_on rnext t rpre = Some t' \<longrightarrow>
      eachReleases rnext rpre page t = (page # map next_page rpre, None)
    \<and> (run_next rnext t' rlist = Inr (False, t1) \<longrightarrow>
          eachReleases rnext (rpre @ (rlist, rresp, None) # rpost) page t
            = (page # map next_page rpre, Some (None, t1)))
    \<and> (run_next rnext t' rlist = Inr (True, t1) \<and> NextPage rr = 0 \<longrightarrow>
          eachReleases rnext (rpre @ (rlist, Some rr, None) # rpost) page t
            = (page # map next_page rpre, Some (None, t1)))
    \<and> eachReleases rnext (rpre @ (rlist, rresp, Some e) # rpost) page t
        = (page # map next_page rpre,
           Some (case rresp of
                   Some r \<Rightarrow> if StatusCode r = StatusNotFound then None else Some e
                 | None \<Rightarrow> Some e, t'))
    \<and> (run_next rnext t' rlist = Inl panic \<longrightarrow>
          eachReleases rnext (rpre @ (rlist, rresp, None) # rpost) page t
            = (page # map next_page rpre, Some (Some panic, t')))
    \<and> (run_next rnext t' rlist = Inr (True, t1) \<longrightarrow>
          eachReleases rnext (rpre @ (rlist, None, None) # rpost) page t
            = (page # map next_page rpre, Some (Some NilDereference, t1))))"
proof (intro conjI impI)
  assume g: "goes_on gnext s gpre = Some s'"
  show "eachGist gnext gpre page s = (page # map next_page gpre, None)"
    by (rule eachGist_exact(1) [OF g])
  show "eachGist gnext (gpre @ (glist, gresp, Some e) # gpost) page s
        = (page # map next_page gpre,
           Some (case gresp of
                   Some r \<Rightarrow> if StatusCode r = StatusNotFound then None else Some e
                 | None \<Rightarrow> Some e, s'))"
    by (rule eachGist_exact(4) [OF g])
  { assume "run_next gnext s' glist = Inr (False, s1)"
    then show "eachGist gnext (gpre @ (glist, gresp, None) # gpost) page s
            = (page # map next_page gpre, Some (None, s1))"
      by (rule eachGist_exact(2) [OF g]) }
  { assume "run_next gnext s' glist = Inl panic"
    then show "eachGist gnext (gpre @ (glist, gresp, None) # gpost) page s
            = (page # map next_page gpre, Some (Some panic, s'))"
      by (rule eachGist_exact(5) [OF g]) }
  { assume "run_next gnext s' glist = Inr (True, s1)"
    then show "eachGist gnext (gpre @ (glist, None, None) # gpost) page s
            = (page # map next_page gpre, Some (Some NilDereference, s1))"
      by (rule eachGist_exact(6) [OF g]) }
  { assume "run_next gnext s' glist = Inr (True, s1) \<and> NextPage gr = 0"
    then show "eachGist gnext (gpre @ (glist, Some gr, None) # gpost) page s
            = (page # map next_page gpre, Some (None, s1))"
      using eachGist_exact(3) [OF g] by blast }
next
  assume g: "goes_on rnext t rpre = Some t'"
  show "eachReleases rnext rpre page t = (page # map next_page rpre, None)"
    by (rule eachReleases_exact(1) [OF g])
  show "eachReleases rnext (rpre @ (rlist, rresp, Some e) # rpost) page t
        = (page # map next_page rpre,
           Some (case rresp of
                   Some r \<Rightarrow> if StatusCode r = StatusNotFound then None else Some e
                 | None \<Rightarrow> Some e, t'))"
    by (rule eachReleases_exact(4) [OF g])
  { assume "run_next rnext t' rlist = Inr (False, t1)"
    then show "eachReleases rnext (rpre @ (rlist, rresp, None) # rpost) page t
            = (page # map next_page rpre, Some (None, t1))"
      by (rule eachReleases_exact(2) [OF g]) }
  { assume "run_next rnext t' rlist = Inl panic"
    then show "eachReleases rnext (rpre @ (rlist, rresp, None) # rpost) page t
            = (page # map next_page rpre, Some (Some panic, t'))"
      by (rule eachReleases_exact(5) [OF g]) }
  { assume "run_next rnext t' rlist = Inr (True, t1)"
    then show "eachReleases rnext (rpre @ (rlist, None, None) # rpost) page t
            = (page # map next_page rpre, Some (Some NilDereference, t1))"
      by (rule eachReleases_exact(6) [OF g]) }
  { assume "run_next rnext t' rlist = Inr (True, t1) \<and> NextPage rr = 0"
    then show "eachReleases rnext (rpre @ (rlist, Some rr, None) # rpost) page t
            = (page # map next_page rpre, Some (None, t1))"
      using eachReleases_exact(3) [OF g] by blast }
qed

text \<open>
  The theorem on three pages, each advertising the next, with a callback that counts
  and returns false on the second page it sees: pages 0 and 2 are requested, page 3 is
  not.
\<close>

theorem scan_short_circuit_witness:
  "goes_on (Some (count_to 2)) 0 [hd three_pages] = Some (Suc 0)
   \<and> run_next (Some (count_to 2)) (Suc 0) (fst (three_pages ! 1)) = Inr (False, 2)
   \<and> eachGist (Some (count_to 2)) three_pages 0 0 = ([0, 2], Some (None, 2))"
proof -
  have g: "goes_on (Some (count_to 2)) 0 [hd three_pages] = Some (Suc 0)"
    by (simp add: three_pages_def run_next_def count_to_def)
  have n: "run_next (Some (count_to 2)) (Suc 0) (fst (three_pages ! 1)) = Inr (False, 2)"
    by (simp add: run_next_def count_to_def)
  have t: "three_pages
             = [hd three_pages]
               @ (fst (three_pages ! 1), Some \<lparr>StatusCode = 200, NextPage = 3\<rparr>, None)
               # [three_pages ! 2]"
    by (simp add: three_pages_def)
  have p: "(0::int) # map next_page [hd three_pages] = [0, 2]"
    by (simp add: three_pages_def next_page_def)
  note scan_short_circuit [where gnext = "Some (count_to 2)" and s = 0
      and gpre = "[hd three_pages]" and s' = "Suc 0" and page = 0
      and glist = "fst (three_pages ! 1)" and ?s1.0 = 2
      and gresp = "Some \<lparr>StatusCode = 200, NextPage = 3\<rparr>"
      and gpost = "[three_pages ! 2]",
      THEN conjunct1, THEN mp, OF g, THEN conjunct2, THEN conjunct1, THEN mp, OF n]
  then have "eachGist (Some (count_to 2))
          ([hd three_pages]
             @ (fst (three_pages ! 1), Some \<lparr>StatusCode = 200, NextPage = 3\<rparr>, None)
             # [three_pages ! 2]) 0 0
        = (0 # map next_page [hd three_pages], Some (None, 2))" .
  with t p have "eachGist (Some (count_to 2)) three_pages 0 0 = ([0, 2], Some (None, 2))"
    by simp
  with g n show ?thesis by simp
qed

section \<open>Properties of the release-asset driver\<close>

lemma delete_same_name_first:
  assumes "\<forall>b \<in> set before. \<exists>n. asset_Name b = Some n \<and> n \<noteq> name"
    "asset_Name a = Some name" "asset_ID a = Some aid"
  shows "delete_same_name env name (before @ a # after)
           = ([Call_DeleteReleaseAsset aid], gh_DeleteReleaseAsset env aid)"
  using assms by (induction before) auto

lemma resolve_existing:
  assumes "gh_GetReleaseByTag env = (Some rel, response, err)"
    "byTag_guard response err = None" "release_ID rel = Some rid"
    "gh_GetRelease env rid = Inr found"
    "release_Assets found = before @ a # after"
    "\<forall>b \<in> set before. \<exists>n. asset_Name b = Some n \<and> n \<noteq> name"
    "asset_Name a = Some name" "asset_ID a = Some aid"
  shows "resolve_release env owner repo release name
           = ([Call_GetRelease rid, Call_DeleteReleaseAsset aid],
              case gh_DeleteReleaseAsset env aid of Some e \<Rightarrow> Inl e | None \<Rightarrow> Inr (Some rid))"
  using assms(1-5) delete_same_name_first [OF assms(6-8), of env after]
  by (simp add: resolve_release_def split: option.splits)

text \<open>
  Claim C5. The release exists (the lookup by tag gives it and passes the guard) and
  its asset list holds an asset of the given name, after assets of other names. Then
  that asset is deleted first. If the delete fails the put returns the delete error,
  and its calls end with the delete: the file is not opened and nothing is uploaded.
  If the delete succeeds and the file opens, the calls are the delete, then the
  upload, then the deferred close of the file; if the upload fails the put returns
  the upload error and no call follows to restore the deleted asset.
\<close>

theorem delete_before_upload:
  assumes "gh_GetReleaseByTag env = (Some rel, response, err)"
    "byTag_guard response err = None" "release_ID rel = Some rid"
    "gh_GetRelease env rid = Inr found"
    "release_Assets found = before @ a # after"
    "\<forall>b \<in> set before. \<exists>n. asset_Name b = Some n \<and> n \<noteq> name"
    "asset_Name a = Some name" "asset_ID a = Some aid"
  shows "(gh_DeleteReleaseAsset env aid = Some e \<longrightarrow>
            putInReleasesAssetWithFile env owner repo release name filename
              = ([Call_GetRelease rid, Call_DeleteReleaseAsset aid], Inl e))
       \<and> (gh_DeleteReleaseAsset env aid = None \<and> os_Open env filename = None \<longrightarrow>
            fst (putInReleasesAssetWithFile env owner repo release name filename)
              = [Call_GetRelease rid, Call_DeleteReleaseAsset aid, Call_Open filename,
                 Call_UploadReleaseAsset rid name, Call_Close filename]
          \<and> (gh_UploadReleaseAsset env rid name = Inl e \<longrightarrow>
                snd (putInReleasesAssetWithFile env owner repo release name filename) = Inl e))"
  using resolve_existing [OF assms, of owner repo release]
  by (simp add: putInReleasesAssetWithFile_def)

text \<open>
  The theorem on the release with two assets, replacing \<open>b.bin\<close>: once with a failing
  delete, once with a failing upload.
\<close>

theorem delete_before_upload_witness:
  "putInReleasesAssetWithFile (two_assets_env (Some (Failure ''forbidden'')) (Inl (Failure ''x'')))
       ''o'' ''r'' ''v1'' ''b.bin'' ''/tmp/b.bin''
     = ([Call_GetRelease 7, Call_DeleteReleaseAsset 2], Inl (Failure ''forbidden''))
   \<and> putInReleasesAssetWithFile (two_assets_env None (Inl (Failure ''upload failed'')))
       ''o'' ''r'' ''v1'' ''b.bin'' ''/tmp/b.bin''
     = ([Call_GetRelease 7, Call_DeleteReleaseAsset 2, Call_Open ''/tmp/b.bin'',
         Call_UploadReleaseAsset 7 ''b.bin'', Call_Close ''/tmp/b.bin''],
        Inl (Failure ''upload failed''))"
proof -
  let ?rel = "\<lparr>release_ID = Some 7, release_Name = Some ''v1'', release_TagName = Some ''v1'',
               release_Draft = Some False, release_Assets = []\<rparr>"
  let ?a1 = "\<lparr>asset_ID = Some 1, asset_Name = Some ''a.bin'', asset_BrowserDownloadURL = None\<rparr>"
  let ?a2 = "\<lparr>asset_ID = Some 2, asset_Name = Some ''b.bin'', asset_BrowserDownloadURL = None\<rparr>"
  let ?found = "?rel\<lparr>release_Assets := [?a1, ?a2]\<rparr>"
  let ?resp = "Some \<lparr>StatusCode = 200, NextPage = 0\<rparr>"
  have h: "gh_GetReleaseByTag (two_assets_env d u) = (Some ?rel, ?resp, None)"
    "byTag_guard ?resp None = None" "release_ID ?rel = Some 7"
    "gh_GetRelease (two_assets_env d u) 7 = Inr ?found"
    "release_Assets ?found = [?a1] @ ?a2 # []"
    "\<forall>b \<in> set [?a1]. \<exists>n. asset_Name b = Some n \<and> n \<noteq> ''b.bin''"
    "asset_Name ?a2 = Some ''b.bin''" "asset_ID ?a2 = Some 2" for d u
    by (simp_all add: two_assets_env_def byTag_guard_def)
  have d: "gh_DeleteReleaseAsset (two_assets_env d u) 2 = d"
    "os_Open (two_assets_env d u) f = None"
    "gh_UploadReleaseAsset (two_assets_env d u) 7 ''b.bin'' = u" for d u f
    by (simp_all add: two_assets_env_def)
  from delete_before_upload [OF h, of "Some (Failure ''forbidden'')" "Inl (Failure ''x'')"
      "Failure ''forbidden''" "''o''" "''r''" "''v1''" "''/tmp/b.bin''"] d
  have 1: "putInReleasesAssetWithFile (two_assets_env (Some (Failure ''forbidden'')) (Inl (Failure ''x'')))
       ''o'' ''r'' ''v1'' ''b.bin'' ''/tmp/b.bin''
     = ([Call_GetRelease 7, Call_DeleteReleaseAsset 2], Inl (Failure ''forbidden''))"
    by simp
  from delete_before_upload [OF h, of None "Inl (Failure ''upload failed'')"
      "Failure ''upload failed''" "''o''" "''r''" "''v1''" "''/tmp/b.bin''"] d
  have 2: "putInReleasesAssetWithFile (two_assets_env None (Inl (Failure ''upload failed'')))
       ''o'' ''r'' ''v1'' ''b.bin'' ''/tmp/b.bin''
     = ([Call_GetRelease 7, Call_DeleteReleaseAsset 2, Call_Open ''/tmp/b.bin'',
         Call_UploadReleaseAsset 7 ''b.bin'', Call_Close ''/tmp/b.bin''],
        Inl (Failure ''upload failed''))"
    by (simp add: prod_eq_iff)
  from 1 2 show ?thesis by simp
qed

text \<open>
  Claim C10 is not met by the code. When the lookup by tag fails with an error and no
  response, \<^verbatim>\<open>GetFromReleasesAsset\<close> and \<^verbatim>\<open>putInReleasesAssetWithFile\<close> both read
  the status code through the nil response and panic, instead of returning the
  error. The scanner \<open>eachReleases\<close> tests the response for nil first and returns the
  error on the same answer.
\<close>

theorem byTag_nil_response_panics:
  "GetFromReleasesAsset no_response_env no_http ''o'' ''r'' ''v1'' ''a.bin''
     = Inl NilDereference
   \<and> putInReleasesAssetWithFile no_response_env ''o'' ''r'' ''v1'' ''a.bin'' ''/tmp/a.bin''
     = ([], Inl NilDereference)
   \<and> snd (eachReleases None [([], None, Some (Failure ''connection refused''))] 0 ())
     = Some (Some (Failure ''connection refused''), ())"
  by (simp add: GetFromReleasesAsset_def putInReleasesAssetWithFile_def resolve_release_def
      byTag_guard_def no_response_env_def)

section \<open>Properties of the gist driver\<close>

lemma find_gist_none:
  "\<forall>g \<in> set gists. skips gistId name g \<Longrightarrow> find_gist gistId name gists = Inr None"
  by (induction gists) (auto simp: skips_def split: option.splits if_splits)

lemma find_gist_first:
  "\<forall>g \<in> set before. skips gistId name g \<Longrightarrow> matches gistId name gist \<Longrightarrow>
     find_gist gistId name (before @ gist # after) = Inr (Some gist)"
  by (induction before) (auto simp: skips_def matches_def split: option.splits if_splits)

lemma gist_next_none:
  "\<forall>g \<in> set gists. skips gistId name g \<Longrightarrow> gist_next gistId name s gists = Inr (True, s)"
  by (simp add: gist_next_def find_gist_none)

lemma gist_next_first:
  "\<forall>g \<in> set before. skips gistId name g \<Longrightarrow> matches gistId name gist \<Longrightarrow>
     gist_next gistId name s (before @ gist # after) = Inr (False, Some gist)"
  by (simp add: gist_next_def find_gist_first)

lemma scan_found:
  assumes "\<forall>a \<in> set pages. passed gistId name a"
    "\<forall>g \<in> set before. skips gistId name g"
    "matches gistId name gist"
  shows "snd (eachGist (Some (gist_next gistId name))
                (pages @ (before @ gist # after, resp, None) # rest) page s)
           = Some (None, Some gist)"
  using assms(1)
proof (induction pages arbitrary: page s)
  case Nil
  show ?case
    using gist_next_first [OF assms(2,3)] by (simp add: run_next_def)
next
  case (Cons a pages)
  from Cons.prems obtain gists r where a: "a = (gists, Some r, None)" "NextPage r \<noteq> 0"
    "\<forall>g \<in> set gists. skips gistId name g"
    by (auto simp: passed_def split: prod.splits option.splits)
  from Cons.prems have "\<forall>a \<in> set pages. passed gistId name a" by simp
  from Cons.IH [OF this] a(1,2) gist_next_none [OF a(3)]
  show ?case by (simp add: run_next_def case_prod_beta)
qed

lemma scan_not_found:
  assumes "\<forall>a \<in> set pages. passed gistId name a"
    "\<forall>g \<in> set gists. skips gistId name g"
    "NextPage r = 0"
  shows "snd (eachGist (Some (gist_next gistId name))
                (pages @ (gists, Some r, None) # rest) page s)
           = Some (None, s)"
  using assms(1)
proof (induction pages arbitrary: page s)
  case Nil
  show ?case
    using gist_next_none [OF assms(2)] assms(3) by (simp add: run_next_def)
next
  case (Cons a pages)
  from Cons.prems obtain gists' r' where a: "a = (gists', Some r', None)" "NextPage r' \<noteq> 0"
    "\<forall>g \<in> set gists'. skips gistId name g"
    by (auto simp: passed_def split: prod.splits option.splits)
  from Cons.prems have "\<forall>a \<in> set pages. passed gistId name a" by simp
  from Cons.IH [OF this] a(1,2) gist_next_none [OF a(3)]
  show ?case by (simp add: run_next_def case_prod_beta)
qed

lemma GetFromGist_found:
  assumes "\<forall>a \<in> set pages. passed gistId name a"
    "\<forall>g \<in> set before. skips gistId name g"
    "matches gistId name gist"
  shows "GetFromGist httpGet (pages @ (before @ gist # after, resp, None) # rest)
           owner gistId name
         = Some (case map_of (gist_Files gist) name of
                   None \<Rightarrow> Inl ErrNotFound
                 | Some file \<Rightarrow>
                     (case file_Content file of
                        Some content \<Rightarrow> Inr (BufferString content)
                      | None \<Rightarrow>
                          (case file_RawURL file of
                             Some rawURL \<Rightarrow>
                               (case httpGet rawURL of
                                  Inl err \<Rightarrow> Inl err
                                | Inr body \<Rightarrow> Inr (AutoCloser body))
                           | None \<Rightarrow> Inl ErrNotFound)))"
  using scan_found [OF assms, of after resp rest 0 None]
  by (simp add: GetFromGist_def)

lemma GetFromGist_not_found:
  assumes "\<forall>a \<in> set pages. passed gistId name a"
    "\<forall>g \<in> set gists. skips gistId name g"
    "NextPage r = 0"
  shows "GetFromGist httpGet (pages @ (gists, Some r, None) # rest) owner gistId name
         = Some (Inl ErrNotFound)"
  using scan_not_found [OF assms, of rest 0 None]
  by (simp add: GetFromGist_def)

text \<open>
  Claim C8. The scan goes past the pages \<open>pages\<close> without a match. If the next page
  holds a gist that matches the selector, after gists that do not, then the result
  comes from that gist, the first match in scan order: not-found when it has no file
  of the given name, the inline content when the file has one, and otherwise what
  fetching the file's raw URL gives, wrapped in the auto-closing reader. If the next
  page holds no match and reports no next page, the result is not-found. The
  wildcard matches a gist that holds a file of exactly that name, any other selector
  the gist whose identifier equals it.
\<close>

theorem gist_get_match:
  assumes "\<forall>a \<in> set pages. passed gistId name a"
  shows "((\<forall>g \<in> set before. skips gistId name g) \<and> matches gistId name gist \<longrightarrow>
            (map_of (gist_Files gist) name = None \<longrightarrow>
               GetFromGist httpGet (pages @ (before @ gist # after, resp, None) # rest)
                 owner gistId name = Some (Inl ErrNotFound))
          \<and> (\<forall>file content. map_of (gist_Files gist) name = Some file
                \<and> file_Content file = Some content \<longrightarrow>
               GetFromGist httpGet (pages @ (before @ gist # after, resp, None) # rest)
                 owner gistId name = Some (Inr (BufferString content)))
          \<and> (\<forall>file rawURL. map_of (gist_Files gist) name = Some file
                \<and> file_Content file = None \<and> file_RawURL file = Some rawURL \<longrightarrow>
               GetFromGist httpGet (pages @ (before @ gist # after, resp, None) # rest)
                 owner gistId name
               = Some (case httpGet rawURL of
                         Inl err \<Rightarrow> Inl err
                       | Inr body \<Rightarrow> Inr (AutoCloser body))))
       \<and> ((\<forall>g \<in> set gists. skips gistId name g) \<and> NextPage r = 0 \<longrightarrow>
            GetFromGist httpGet (pages @ (gists, Some r, None) # rest) owner gistId name
              = Some (Inl ErrNotFound))
       \<and> (matches anyFile name gist \<longleftrightarrow> name \<in> fst ` set (gist_Files gist))
       \<and> (gistId \<noteq> anyFile \<longrightarrow> (matches gistId name gist \<longleftrightarrow> gist_ID gist = Some gistId))"
proof (intro conjI impI allI)
  assume m: "(\<forall>g \<in> set before. skips gistId name g) \<and> matches gistId name gist"
    and "map_of (gist_Files gist) name = None"
  with GetFromGist_found [OF assms conjunct1 [OF m] conjunct2 [OF m],
      of httpGet after resp rest owner]
  show "GetFromGist httpGet (pages @ (before @ gist # after, resp, None) # rest)
            owner gistId name = Some (Inl ErrNotFound)"
    by simp
next
  fix f content
  assume m: "(\<forall>g \<in> set before. skips gistId name g) \<and> matches gistId name gist"
    and "map_of (gist_Files gist) name = Some f \<and> file_Content f = Some content"
  with GetFromGist_found [OF assms conjunct1 [OF m] conjunct2 [OF m],
      of httpGet after resp rest owner]
  show "GetFromGist httpGet (pages @ (before @ gist # after, resp, None) # rest)
            owner gistId name = Some (Inr (BufferString content))"
    by simp
next
  fix f rawURL
  assume m: "(\<forall>g \<in> set before. skips gistId name g) \<and> matches gistId name gist"
    and "map_of (gist_Files gist) name = Some f
                \<and> file_Content f = None \<and> file_RawURL f = Some rawURL"
  with GetFromGist_found [OF assms conjunct1 [OF m] conjunct2 [OF m],
      of httpGet after resp rest owner]
  show "GetFromGist httpGet (pages @ (before @ gist # after, resp, None) # rest)
                 owner gistId name
               = Some (case httpGet rawURL of
                         Inl err \<Rightarrow> Inl err
                       | Inr body \<Rightarrow> Inr (AutoCloser body))"
    by simp
next
  assume "(\<forall>g \<in> set gists. skips gistId name g) \<and> NextPage r = 0"
  then show "GetFromGist httpGet (pages @ (gists, Some r, None) # rest) owner gistId name
              = Some (Inl ErrNotFound)"
    using GetFromGist_not_found [OF assms, of gists r httpGet rest owner] by blast
next
  show "matches anyFile name gist \<longleftrightarrow> name \<in> fst ` set (gist_Files gist)"
    by (simp add: matches_def map_of_eq_None_iff)
next
  assume "gistId \<noteq> anyFile"
  then show "matches gistId name gist \<longleftrightarrow> gist_ID gist = Some gistId"
    by (simp add: matches_def)
qed


text \<open>
  The theorem on a first page without files and a second page with \<open>gist_xy\<close>, for the
  wildcard and the file \<open>y\<close>.
\<close>

theorem gist_get_match_witness:
  "passed ''*'' ''y'' (hd three_pages) \<and> matches ''*'' ''y'' gist_xy
   \<and> GetFromGist (\<lambda>url. Inr url)
        ([hd three_pages] @ ([] @ gist_xy # [], Some \<lparr>StatusCode = 200, NextPage = 0\<rparr>, None) # [])
        ''o'' ''*'' ''y''
      = Some (Inr (AutoCloser ''https://gist.example/o/g1/raw/77aa/y''))"
proof -
  have h: "\<forall>a \<in> set [hd three_pages]. passed ''*'' ''y'' a"
    by (simp add: three_pages_def passed_def skips_def anyFile_def)
  have m: "(\<forall>g \<in> set []. skips ''*'' ''y'' g) \<and> matches ''*'' ''y'' gist_xy"
    by (simp add: matches_def anyFile_def gist_xy_def)
  have f: "map_of (gist_Files gist_xy) ''y''
             = Some \<lparr>file_Filename = Some ''y'', file_Content = None,
                     file_RawURL = Some ''https://gist.example/o/g1/raw/77aa/y''\<rparr>"
    by (simp add: gist_xy_def)
  from gist_get_match [OF h, where before = "[]" and gist = gist_xy
      and httpGet = "\<lambda>url. Inr url" and after = "[]"
      and resp = "Some \<lparr>StatusCode = 200, NextPage = 0\<rparr>" and rest = "[]" and owner = "''o''"]
    h m f
  show ?thesis by simp
qed

text \<open>
  Claim C4, as the code has it. When the scan finds a matching gist, \<^verbatim>\<open>putInGist\<close>
  makes one call that changes the remote, an edit of that gist, and no create. The
  gist it submits is the one found with its whole file set replaced by a single
  entry, of the given name and with the new content, whatever files the gist had.
  The gist at the remote after the call is what the forge makes of that submission:
  on a forge that puts the submitted file set in place of the stored one, it holds
  the given file and no other.
\<close>

theorem gist_put_submits_single_file:
  assumes "\<forall>a \<in> set pages. passed gistId name a"
    "\<forall>g \<in> set before. skips gistId name g"
    "matches gistId name gist" "gist_ID gist = Some gid"
  shows "putInGist Create Edit (pages @ (before @ gist # after, resp, None) # rest)
           owner gistId name (Inr dataContext)
         = ([Call_Gists_Edit gid
               (gist\<lparr>gist_Files := [(name, \<lparr>file_Filename = Some name,
                                             file_Content = Some dataContext,
                                             file_RawURL = None\<rparr>)]\<rparr>)],
            Some (case Edit gid
                         (gist\<lparr>gist_Files := [(name, \<lparr>file_Filename = Some name,
                                                       file_Content = Some dataContext,
                                                       file_RawURL = None\<rparr>)]\<rparr>) of
                    Inl err \<Rightarrow> Inl err
                  | Inr returned \<Rightarrow> stable_raw returned name))
       \<and> remote_after forge gist
            (fst (putInGist Create Edit (pages @ (before @ gist # after, resp, None) # rest)
                    owner gistId name (Inr dataContext)))
          = forge gist
              (gist\<lparr>gist_Files := [(name, \<lparr>file_Filename = Some name,
                                            file_Content = Some dataContext,
                                            file_RawURL = None\<rparr>)]\<rparr>)
       \<and> gist_Files
            (remote_after replace_files gist
               (fst (putInGist Create Edit (pages @ (before @ gist # after, resp, None) # rest)
                       owner gistId name (Inr dataContext))))
          = [(name, \<lparr>file_Filename = Some name, file_Content = Some dataContext,
                      file_RawURL = None\<rparr>)]"
proof -
  have p: "putInGist Create Edit (pages @ (before @ gist # after, resp, None) # rest)
           owner gistId name (Inr dataContext)
         = ([Call_Gists_Edit gid
               (gist\<lparr>gist_Files := [(name, \<lparr>file_Filename = Some name,
                                             file_Content = Some dataContext,
                                             file_RawURL = None\<rparr>)]\<rparr>)],
            Some (case Edit gid
                         (gist\<lparr>gist_Files := [(name, \<lparr>file_Filename = Some name,
                                                       file_Content = Some dataContext,
                                                       file_RawURL = None\<rparr>)]\<rparr>) of
                    Inl err \<Rightarrow> Inl err
                  | Inr returned \<Rightarrow> stable_raw returned name))"
    using scan_found [OF assms(1-3), of after resp rest 0 None] assms(4)
    by (simp add: putInGist_def Let_def)
  show ?thesis
    by (rule conjI, rule p) (simp add: p assms(4) replace_files_def)
qed

text \<open>
  The theorem on \<open>gist_xy\<close>, which holds \<open>x\<close> and \<open>y\<close>, on a forge that replaces the
  file set: after putting \<open>x\<close> the gist holds \<open>x\<close> alone.
\<close>

theorem gist_put_submits_single_file_witness:
  "matches ''g1'' ''x'' gist_xy \<and> gist_ID gist_xy = Some ''g1''
   \<and> map fst (gist_Files gist_xy) = [''x'', ''y'']
   \<and> putInGist (\<lambda>new. Inl (Failure ''not called'')) (forge_Edit replace_files gist_xy)
        ([] @ ([] @ gist_xy # [], Some \<lparr>StatusCode = 200, NextPage = 0\<rparr>, None) # [])
        ''o'' ''g1'' ''x'' (Inr ''new text'')
      = ([Call_Gists_Edit ''g1''
            (gist_xy\<lparr>gist_Files := [(''x'', \<lparr>file_Filename = Some ''x'',
                                              file_Content = Some ''new text'',
                                              file_RawURL = None\<rparr>)]\<rparr>)],
         Some (Inr ''https://gist.example/o/g1/raw/x''))
   \<and> map fst (gist_Files
        (remote_after replace_files gist_xy
           (fst (putInGist (\<lambda>new. Inl (Failure ''not called''))
                   (forge_Edit replace_files gist_xy)
                   ([] @ ([] @ gist_xy # [], Some \<lparr>StatusCode = 200, NextPage = 0\<rparr>, None) # [])
                   ''o'' ''g1'' ''x'' (Inr ''new text''))))) = [''x'']"
proof -
  have h: "\<forall>a \<in> set []. passed ''g1'' ''x'' a" "\<forall>g \<in> set []. skips ''g1'' ''x'' g"
    "matches ''g1'' ''x'' gist_xy" "gist_ID gist_xy = Some ''g1''"
    by (simp_all add: matches_def anyFile_def gist_xy_def)
  have e: "(case forge_Edit replace_files gist_xy ''g1''
                 (gist_xy\<lparr>gist_Files := [(''x'', \<lparr>file_Filename = Some ''x'',
                                              file_Content = Some ''new text'',
                                              file_RawURL = None\<rparr>)]\<rparr>) of
             Inl err \<Rightarrow> Inl err
           | Inr returned \<Rightarrow> stable_raw returned ''x'')
           = Inr ''https://gist.example/o/g1/raw/x''"
    by (simp add: forge_Edit_def replace_files_def echo_Edit_def stable_raw_def eval_nat_numeral)
  have x: "map fst (gist_Files gist_xy) = [''x'', ''y'']"
    by (simp add: gist_xy_def)
  note t = gist_put_submits_single_file [OF h, of "\<lambda>new. Inl (Failure ''not called'')"
      "forge_Edit replace_files gist_xy" "[]" "Some \<lparr>StatusCode = 200, NextPage = 0\<rparr>" "[]"
      "''o''" "''new text''" replace_files]
  from t [THEN conjunct1] e have 1: "putInGist (\<lambda>new. Inl (Failure ''not called''))
        (forge_Edit replace_files gist_xy)
        ([] @ ([] @ gist_xy # [], Some \<lparr>StatusCode = 200, NextPage = 0\<rparr>, None) # [])
        ''o'' ''g1'' ''x'' (Inr ''new text'')
      = ([Call_Gists_Edit ''g1''
            (gist_xy\<lparr>gist_Files := [(''x'', \<lparr>file_Filename = Some ''x'',
                                              file_Content = Some ''new text'',
                                              file_RawURL = None\<rparr>)]\<rparr>)],
         Some (Inr ''https://gist.example/o/g1/raw/x''))"
    by simp
  from t [THEN conjunct2, THEN conjunct2] have 2: "map fst (gist_Files
        (remote_after replace_files gist_xy
           (fst (putInGist (\<lambda>new. Inl (Failure ''not called''))
                   (forge_Edit replace_files gist_xy)
                   ([] @ ([] @ gist_xy # [], Some \<lparr>StatusCode = 200, NextPage = 0\<rparr>, None) # [])
                   ''o'' ''g1'' ''x'' (Inr ''new text''))))) = [''x'']"
    by simp
  from h(3,4) x 1 2 show ?thesis by blast
qed

text \<open>
  Claim C4 as stated has the gist hold only \<open>x\<close> after every such put. On a forge that
  merges the submitted files into the stored ones, the same put of \<open>x\<close> into
  \<open>gist_xy\<close> submits \<open>x\<close> alone and returns its URL, and the gist holds \<open>x\<close> and
  \<open>y\<close> afterwards, \<open>y\<close> unchanged.
\<close>

theorem gist_put_only_x_counterexample:
  "map fst (gist_Files gist_xy) = [''x'', ''y'']
   \<and> putInGist (\<lambda>new. Inl (Failure ''not called'')) (forge_Edit merge_files gist_xy)
        [([gist_xy], Some \<lparr>StatusCode = 200, NextPage = 0\<rparr>, None)]
        ''o'' ''g1'' ''x'' (Inr ''new text'')
      = ([Call_Gists_Edit ''g1''
            (gist_xy\<lparr>gist_Files := [(''x'', \<lparr>file_Filename = Some ''x'',
                                              file_Content = Some ''new text'',
                                              file_RawURL = None\<rparr>)]\<rparr>)],
         Some (Inr ''https://gist.example/o/g1/raw/x''))
   \<and> map fst (gist_Files
        (remote_after merge_files gist_xy
           (fst (putInGist (\<lambda>new. Inl (Failure ''not called''))
                   (forge_Edit merge_files gist_xy)
                   [([gist_xy], Some \<lparr>StatusCode = 200, NextPage = 0\<rparr>, None)]
                   ''o'' ''g1'' ''x'' (Inr ''new text''))))) = [''x'', ''y'']
   \<and> map_of (gist_Files
        (remote_after merge_files gist_xy
           (fst (putInGist (\<lambda>new. Inl (Failure ''not called''))
                   (forge_Edit merge_files gist_xy)
                   [([gist_xy], Some \<lparr>StatusCode = 200, NextPage = 0\<rparr>, None)]
                   ''o'' ''g1'' ''x'' (Inr ''new text''))))) ''y''
      = map_of (gist_Files gist_xy) ''y''"
  by (simp add: putInGist_def run_next_def gist_next_def anyFile_def gist_xy_def Let_def
      forge_Edit_def merge_files_def echo_Edit_def stable_raw_def eval_nat_numeral)

section \<open>Properties of the git mirror driver\<close>

lemma andThen_Inl: "andThen (calls, Inl e) f = (calls, Inl e)"
  by (simp add: andThen_def)

lemma andThen_Inr: "andThen (calls, Inr x) f = (calls @ fst (f x), snd (f x))"
  by (simp add: andThen_def case_prod_beta)

lemma andThen_call:
  "andThen (call c res) f =
     (case res of Some e \<Rightarrow> ([c], Inl e) | None \<Rightarrow> (c # fst (f ()), snd (f ())))"
  by (simp add: andThen_def call_def case_prod_beta split: option.splits)

lemma andThen_look:
  "andThen (look res) f = (case res of Some e \<Rightarrow> ([], Inl e) | None \<Rightarrow> f ())"
  by (simp add: andThen_def look_def case_prod_beta split: option.splits)

lemma andThen_wrap_call:
  "andThen (wrap msg (call c res)) f =
     (case res of
        Some e \<Rightarrow> ([c], Inl (Wrapf msg e))
      | None \<Rightarrow> (c # fst (f ()), snd (f ())))"
  by (simp add: andThen_def call_def wrap_def case_prod_beta split: option.splits)

lemma wrap_call:
  "wrap msg (call c res) = ([c], case res of Some e \<Rightarrow> Inl (Wrapf msg e) | None \<Rightarrow> Inr ())"
  by (simp add: call_def wrap_def split: option.splits)

lemma fetch_refused:
  assumes "git_FetchContext env = Some err" "\<not> benign_fetch err"
  shows "fetchGit_fetch env branch
           = ([Call_FetchContext (gitRemoteName branch) (fetch_refspec branch)],
              Inl (Wrapf ''git fetch: '' err))"
  using assms by (simp add: fetchGit_fetch_def benign_fetch_def)

lemma fetch_continues:
  assumes "git_FetchContext env = None \<or> (git_FetchContext env = Some err \<and> benign_fetch err)"
  shows "fetchGit_fetch env branch
           = ([Call_FetchContext (gitRemoteName branch) (fetch_refspec branch)], Inr ())"
  using assms by (auto simp: fetchGit_fetch_def benign_fetch_def)

lemma benign_cases:
  "benign_fetch NoErrAlreadyUpToDate" "benign_fetch ErrEmptyRemoteRepository"
  "benign_fetch NoMatchingRefSpecError" "benign_fetch (Wrapf m e) = benign_fetch e"
  "\<not> benign_fetch ErrNotFound" "\<not> benign_fetch EOF" "\<not> benign_fetch ErrRemoteNotFound"
  "\<not> benign_fetch ErrBranchNotFound" "\<not> benign_fetch (Failure msg)"
  "\<not> benign_fetch (NotMatch uri pat)" "\<not> benign_fetch (NotSupport uri)"
  "\<not> benign_fetch NilDereference"
  by (simp_all add: benign_fetch_def)

text \<open>
  Claim C7. Once the mirror is opened and bound, so that the fetch is made: a fetch
  error that is none of the three harmless outcomes ends \<^verbatim>\<open>fetchGit\<close> with that
  error wrapped as a fetch-phase error, the fetch being its last call, and
  \<^verbatim>\<open>GetFromGit\<close> and \<^verbatim>\<open>putInGit\<close> return the same error with no further call; a
  fetch without error or with one of the three outcomes lets \<^verbatim>\<open>fetchGit\<close> go on
  to the reference inspection, whose result it returns. The harmless outcomes are
  exactly the three sentinels and what wraps them.
\<close>

theorem fetch_outcomes:
  assumes "snd (fetchGit_bind env s owner repo branch) = Inr dir"
  shows "(git_FetchContext env = Some err \<and> \<not> benign_fetch err \<longrightarrow>
            fetchGit env s owner repo branch
              = (fst (fetchGit_bind env s owner repo branch)
                   @ [Call_FetchContext (gitRemoteName branch) (fetch_refspec branch)],
                 Inl (Wrapf ''git fetch: '' err))
          \<and> GetFromGit env open_file s owner repo branch name
              = (fst (fetchGit_bind env s owner repo branch)
                   @ [Call_FetchContext (gitRemoteName branch) (fetch_refspec branch)],
                 Inl (Wrapf ''git fetch: '' err))
          \<and> putInGit env fenv s owner repo branch name
              = (fst (fetchGit_bind env s owner repo branch)
                   @ [Call_FetchContext (gitRemoteName branch) (fetch_refspec branch)],
                 Inl (Wrapf ''git fetch: '' err)))
       \<and> (git_FetchContext env = None
            \<or> (git_FetchContext env = Some err \<and> benign_fetch err) \<longrightarrow>
            fetchGit env s owner repo branch
              = (fst (fetchGit_bind env s owner repo branch)
                   @ Call_FetchContext (gitRemoteName branch) (fetch_refspec branch)
                   # fst (fetchGit_reset env (NewBranchReferenceName branch)),
                 case snd (fetchGit_reset env (NewBranchReferenceName branch)) of
                   Inl e \<Rightarrow> Inl e
                 | Inr _ \<Rightarrow> Inr dir))
       \<and> (benign_fetch err \<longleftrightarrow>
            (case err of
               NoErrAlreadyUpToDate \<Rightarrow> True
             | ErrEmptyRemoteRepository \<Rightarrow> True
             | NoMatchingRefSpecError \<Rightarrow> True
             | Wrapf m e \<Rightarrow> benign_fetch e
             | _ \<Rightarrow> False))"
proof -
  obtain calls where b: "fetchGit_bind env s owner repo branch = (calls, Inr dir)"
    using assms by (cases "fetchGit_bind env s owner repo branch") auto
  have refused: "fetchGit env s owner repo branch
                   = (calls @ [Call_FetchContext (gitRemoteName branch) (fetch_refspec branch)],
                      Inl (Wrapf ''git fetch: '' err))"
    if "git_FetchContext env = Some err \<and> \<not> benign_fetch err"
    using fetch_refused [of env err branch] that
    by (simp add: fetchGit_def b andThen_Inr andThen_Inl)
  have continues: "fetchGit env s owner repo branch
              = (calls @ Call_FetchContext (gitRemoteName branch) (fetch_refspec branch)
                   # fst (fetchGit_reset env (NewBranchReferenceName branch)),
                 case snd (fetchGit_reset env (NewBranchReferenceName branch)) of
                   Inl e \<Rightarrow> Inl e
                 | Inr _ \<Rightarrow> Inr dir)"
    if "git_FetchContext env = None \<or> (git_FetchContext env = Some err \<and> benign_fetch err)"
    using fetch_continues [OF that, of branch]
    by (cases "fetchGit_reset env (NewBranchReferenceName branch)")
       (auto simp: fetchGit_def b andThen_Inr andThen_Inl andThen_def split: sum.splits)
  have kinds: "benign_fetch err \<longleftrightarrow>
            (case err of
               NoErrAlreadyUpToDate \<Rightarrow> True
             | ErrEmptyRemoteRepository \<Rightarrow> True
             | NoMatchingRefSpecError \<Rightarrow> True
             | Wrapf m e \<Rightarrow> benign_fetch e
             | _ \<Rightarrow> False)"
    by (cases err) (simp_all add: benign_cases)
  show ?thesis
    using refused continues kinds
    by (simp add: b GetFromGit_def putInGit_def andThen_Inl)
qed


lemma mirror_env_bind:
  "fetchGit_bind (mirror_env fetched refs) config ''o'' ''r'' ''main''
     = ([Call_MkdirAll ''tmp/git/o/r'', Call_PlainOpen ''tmp/git/o/r/main'',
         Call_SetReference (SymbolicReference ''HEAD'' ''refs/heads/main'')],
        Inr ''tmp/git/o/r/main'')"
  by (simp add: fetchGit_bind_def mirror_env_def config_def andThen_call andThen_wrap_call
      andThen_Inr HEAD_def NewBranchReferenceName_def gitRemoteName_def Let_def)

text \<open>
  The theorem on an existing mirror whose fetch fails on authentication: the put ends
  with the fetch-phase error right after the fetch.
\<close>

theorem fetch_outcomes_witness:
  "snd (fetchGit_bind (mirror_env (Some (Failure ''authentication required'')) stale_refs)
          config ''o'' ''r'' ''main'') = Inr ''tmp/git/o/r/main''
   \<and> putInGit (mirror_env (Some (Failure ''authentication required'')) stale_refs)
        (worktree_env []) config ''o'' ''r'' ''main'' ''a/b.txt''
      = ([Call_MkdirAll ''tmp/git/o/r'', Call_PlainOpen ''tmp/git/o/r/main'',
          Call_SetReference (SymbolicReference ''HEAD'' ''refs/heads/main''),
          Call_FetchContext ''origin-main'' ''+refs/heads/main:refs/remotes/origin-main/main''],
         Inl (Wrapf ''git fetch: '' (Failure ''authentication required'')))"
proof -
  have b: "snd (fetchGit_bind (mirror_env (Some (Failure ''authentication required'')) stale_refs)
          config ''o'' ''r'' ''main'') = Inr ''tmp/git/o/r/main''"
    by (simp add: mirror_env_bind)
  have f: "git_FetchContext (mirror_env (Some (Failure ''authentication required'')) stale_refs)
             = Some (Failure ''authentication required'')"
    "\<not> benign_fetch (Failure ''authentication required'')"
    by (simp_all add: mirror_env_def benign_fetch_def)
  from fetch_outcomes [OF b, of "Failure ''authentication required''" "\<lambda>path. Inl EOF"
      "''a/b.txt''" "worktree_env []"] f
  have p: "putInGit (mirror_env (Some (Failure ''authentication required'')) stale_refs)
             (worktree_env []) config ''o'' ''r'' ''main'' ''a/b.txt''
           = (fst (fetchGit_bind (mirror_env (Some (Failure ''authentication required''))
                     stale_refs) config ''o'' ''r'' ''main'')
                @ [Call_FetchContext (gitRemoteName ''main'') (fetch_refspec ''main'')],
              Inl (Wrapf ''git fetch: '' (Failure ''authentication required'')))"
    by blast
  show ?thesis
    by (rule conjI, rule b)
       (simp add: p mirror_env_bind gitRemoteName_def fetch_refspec_def)
qed

text \<open>
  Claim C2 is not met by the code, which inspects the first reference the iterator
  yields and not the remote-tracking reference of the branch. On \<open>stale_refs\<close> the
  remote-tracking reference resolves to 178, yet the branch is set and the working
  tree reset to 161, the hash of the local branch. On \<open>unpushed_refs\<close>, after a
  fetch from an empty remote, there is no remote-tracking reference, yet the branch
  reference is set and the working tree is reset.
\<close>

theorem reset_follows_first_reference:
  "remote_tracking_hash stale_refs ''main'' = 178
   \<and> fetchGit (mirror_env None stale_refs) config ''o'' ''r'' ''main''
      = ([Call_MkdirAll ''tmp/git/o/r'', Call_PlainOpen ''tmp/git/o/r/main'',
          Call_SetReference (SymbolicReference ''HEAD'' ''refs/heads/main''),
          Call_FetchContext ''origin-main'' ''+refs/heads/main:refs/remotes/origin-main/main'',
          Call_SetReference (HashReference ''refs/heads/main'' 161), Call_Reset 161],
         Inr ''tmp/git/o/r/main'')
   \<and> remote_tracking_hash unpushed_refs ''main'' = 0
   \<and> fetchGit (mirror_env (Some ErrEmptyRemoteRepository) unpushed_refs)
        config ''o'' ''r'' ''main''
      = ([Call_MkdirAll ''tmp/git/o/r'', Call_PlainOpen ''tmp/git/o/r/main'',
          Call_SetReference (SymbolicReference ''HEAD'' ''refs/heads/main''),
          Call_FetchContext ''origin-main'' ''+refs/heads/main:refs/remotes/origin-main/main'',
          Call_SetReference (HashReference ''refs/heads/main'' 161), Call_Reset 161],
         Inr ''tmp/git/o/r/main'')"
proof -
  have r: "fetchGit_reset (mirror_env fetched (HashReference ''refs/heads/main'' 161 # refs))
             ''refs/heads/main''
           = ([Call_SetReference (HashReference ''refs/heads/main'' 161), Call_Reset 161], Inr ())"
    for fetched refs
    by (simp add: fetchGit_reset_def mirror_env_def IsZero_def andThen_wrap_call andThen_look
        wrap_call andThen_Inr)
  have f: "fetchGit_fetch (mirror_env None refs) ''main''
             = ([Call_FetchContext ''origin-main''
                   ''+refs/heads/main:refs/remotes/origin-main/main''], Inr ())"
    "fetchGit_fetch (mirror_env (Some ErrEmptyRemoteRepository) refs) ''main''
             = ([Call_FetchContext ''origin-main''
                   ''+refs/heads/main:refs/remotes/origin-main/main''], Inr ())" for refs
    by (simp_all add: fetchGit_fetch_def mirror_env_def gitRemoteName_def fetch_refspec_def)
  show ?thesis
    by (simp add: fetchGit_def mirror_env_bind f r andThen_Inr stale_refs_def unpushed_refs_def
        NewBranchReferenceName_def gitRemoteName_def)
qed


lemma all_andThen:
  assumes "\<forall>c \<in> set (fst m). P c" "\<And>x. \<forall>c \<in> set (fst (f x)). P c"
  shows "\<forall>c \<in> set (fst (andThen m f)). P c"
  using assms by (cases m) (auto simp: andThen_def case_prod_beta split: sum.splits)

lemma all_wrap: "\<forall>c \<in> set (fst m). P c \<Longrightarrow> \<forall>c \<in> set (fst (wrap msg m)). P c"
  by (cases m) (auto simp: wrap_def split: sum.splits)

lemma all_call: "P c \<Longrightarrow> \<forall>c' \<in> set (fst (call c res)). P c'"
  by (simp add: call_def)

lemma all_look: "\<forall>c \<in> set (fst (look res)). P c"
  by (simp add: look_def)

lemma all_nil: "\<forall>c \<in> set (fst ([], res)). P c"
  by simp

lemma quiet_open_step:
  "\<forall>c \<in> set (fst (if b then call (Call_PlainOpen d) r1 else call (Call_PlainInit d) r2)).
     \<not> is_Commit c \<and> \<not> is_Push c"
  by (simp add: call_def)

lemma quiet_remote_step:
  "\<forall>c \<in> set (fst (case r of
                      None \<Rightarrow> ([], Inr ())
                    | Some err \<Rightarrow>
                        if b err then ([], Inl err)
                        else call (Call_CreateRemote a1 a2 a3) res)).
     \<not> is_Commit c \<and> \<not> is_Push c"
  by (simp add: call_def split: option.splits)

lemma quiet_branch_step:
  "\<forall>c \<in> set (fst (case r of
                      None \<Rightarrow> ([], Inr ())
                    | Some err \<Rightarrow>
                        if b err then ([], Inl err)
                        else andThen (call (Call_CreateBranch a1 a2 a3) r1) (\<lambda>_. look r2))).
     \<not> is_Commit c \<and> \<not> is_Push c"
  by (simp add: andThen_call look_def split: option.splits)

lemma quiet_bind:
  "\<forall>c \<in> set (fst (fetchGit_bind env s owner repo branch)). \<not> is_Commit c \<and> \<not> is_Push c"
  unfolding fetchGit_bind_def Let_def
  by (intro all_andThen all_wrap all_call all_nil quiet_open_step quiet_remote_step
      quiet_branch_step) simp_all

lemma quiet_fetch:
  "\<forall>c \<in> set (fst (fetchGit_fetch env branch)). \<not> is_Commit c \<and> \<not> is_Push c"
  by (simp add: fetchGit_fetch_def split: option.splits)

lemma quiet_reset_step:
  "\<forall>c \<in> set (fst (andThen (wrap m1 (call (Call_SetReference r) a))
                      (\<lambda>_. andThen (look b) (\<lambda>_. wrap m2 (call (Call_Reset h) d))))).
     \<not> is_Commit c \<and> \<not> is_Push c"
  by (intro all_andThen all_wrap all_call all_look) simp_all

lemma quiet_reset:
  "\<forall>c \<in> set (fst (fetchGit_reset env refName)). \<not> is_Commit c \<and> \<not> is_Push c"
proof (cases "git_IterReferences env")
  case (Inl e)
  then show ?thesis by (simp add: fetchGit_reset_def)
next
  case (Inr refs)
  show ?thesis
  proof (cases refs)
    case Nil
    with Inr show ?thesis by (simp add: fetchGit_reset_def)
  next
    case (Cons ref rest)
    show ?thesis
    proof (cases "IsZero (ref_Hash ref)")
      case True
      with Inr Cons show ?thesis by (simp add: fetchGit_reset_def)
    next
      case False
      with Inr Cons quiet_reset_step show ?thesis by (simp add: fetchGit_reset_def)
    qed
  qed
qed

lemma quiet_fetchGit:
  "\<forall>c \<in> set (fst (fetchGit env s owner repo branch)). \<not> is_Commit c \<and> \<not> is_Push c"
  unfolding fetchGit_def
  by (intro all_andThen all_nil quiet_bind quiet_fetch quiet_reset)

lemma filter_quiet:
  "filter is_Commit (fst (fetchGit env s owner repo branch)) = []"
  "filter is_Push (fst (fetchGit env s owner repo branch)) = []"
  using quiet_fetchGit [of env s owner repo branch] by (simp_all add: filter_empty_conv)

lemma status_dirty_iff: "status_dirty status name = path_changed status name"
  by (cases "map_of status name") (auto simp: status_dirty_def path_changed_def)


lemma put_unchanged:
  assumes "work_Status fenv = Inr status" "\<not> path_changed status name"
  shows "filter is_Commit (fst (putInGit env fenv s owner repo branch name)) = []
       \<and> filter is_Push (fst (putInGit env fenv s owner repo branch name)) = []
       \<and> (\<forall>url. snd (putInGit env fenv s owner repo branch name) = Inr url \<longrightarrow>
             url = gitURL s owner repo @ ''/raw/'' @ branch @ ''/'' @ name)"
proof -
  obtain t res where fg: "fetchGit env s owner repo branch = (t, res)"
    by (cases "fetchGit env s owner repo branch") auto
  from filter_quiet [of env s owner repo branch] fg
  have q: "filter is_Commit t = []" "filter is_Push t = []" by simp_all
  show ?thesis
  proof (cases res)
    case (Inl e)
    with fg q show ?thesis by (simp add: putInGit_def andThen_Inl)
  next
    case (Inr dir)
    with fg q assms show ?thesis
      by (simp add: putInGit_def andThen_Inr andThen_call andThen_wrap_call andThen_look
          status_dirty_iff Let_def split: option.splits)
  qed
qed

lemma put_changed:
  assumes "snd (putInGit env fenv s owner repo branch name) = Inr url"
    "work_Status fenv = Inr status" "path_changed status name"
  shows "length (filter is_Commit (fst (putInGit env fenv s owner repo branch name))) = 1
       \<and> length (filter is_Push (fst (putInGit env fenv s owner repo branch name))) = 1
       \<and> url = gitURL s owner repo @ ''/raw/'' @ branch @ ''/'' @ name"
proof -
  obtain t res where fg: "fetchGit env s owner repo branch = (t, res)"
    by (cases "fetchGit env s owner repo branch") auto
  from filter_quiet [of env s owner repo branch] fg
  have q: "filter is_Commit t = []" "filter is_Push t = []" by simp_all
  show ?thesis
  proof (cases res)
    case (Inl e)
    with fg assms(1) show ?thesis by (simp add: putInGit_def andThen_Inl)
  next
    case (Inr dir)
    from Inr fg q assms show ?thesis
      by (simp add: putInGit_def andThen_Inr andThen_Inl andThen_call andThen_wrap_call
          andThen_look wrap_call status_dirty_iff Let_def split: option.splits)
  qed
qed

text \<open>
  Claim C1. Two calls of \<^verbatim>\<open>putInGit\<close> for the same address, each in its own
  environment. If the first call succeeds and its status showed a change for the
  path, it commits once and pushes once. If the status of the second call shows no
  change for the path, the second call commits and pushes zero times, and if it
  returns a URL this is the one the first call returned,
  \<^verbatim>\<open><host>/<owner>/<repo>/raw/<branch>/<name>\<close>.
\<close>

theorem idempotent_put:
  assumes "snd (putInGit env1 fenv1 s owner repo branch name) = Inr url"
    "work_Status fenv1 = Inr status1" "path_changed status1 name"
    "work_Status fenv2 = Inr status2" "\<not> path_changed status2 name"
  shows "length (filter is_Commit (fst (putInGit env1 fenv1 s owner repo branch name))) = 1
       \<and> length (filter is_Push (fst (putInGit env1 fenv1 s owner repo branch name))) = 1
       \<and> filter is_Commit (fst (putInGit env2 fenv2 s owner repo branch name)) = []
       \<and> filter is_Push (fst (putInGit env2 fenv2 s owner repo branch name)) = []
       \<and> url = gitURL s owner repo @ ''/raw/'' @ branch @ ''/'' @ name
       \<and> (\<forall>url2. snd (putInGit env2 fenv2 s owner repo branch name) = Inr url2
             \<longrightarrow> url2 = url)"
  using put_changed [OF assms(1-3)] put_unchanged [OF assms(4,5), of env2 s owner repo branch]
  by simp

text \<open>
  The theorem on a first put of a new file to a branch that is not yet on the remote,
  and a second put whose status is empty.
\<close>

theorem idempotent_put_witness:
  "putInGit (mirror_env (Some NoMatchingRefSpecError) [SymbolicReference ''HEAD'' ''refs/heads/main''])
     (worktree_env [(''a/b.txt'', \<lparr>Staging = Added, Worktree = Unmodified\<rparr>)])
     config ''o'' ''r'' ''main'' ''a/b.txt''
   = ([Call_MkdirAll ''tmp/git/o/r'', Call_PlainOpen ''tmp/git/o/r/main'',
       Call_SetReference (SymbolicReference ''HEAD'' ''refs/heads/main''),
       Call_FetchContext ''origin-main'' ''+refs/heads/main:refs/remotes/origin-main/main'',
       Call_MkdirAll ''tmp/git/o/r/main/a'', Call_OpenFile ''tmp/git/o/r/main/a/b.txt'',
       Call_Copy, Call_Add ''a/b.txt'', Call_Commit ''Automatic update a/b.txt'',
       Call_PushContext ''origin-main''],
      Inr ''https://github.com/o/r/raw/main/a/b.txt'')
   \<and> path_changed [(''a/b.txt'', \<lparr>Staging = Added, Worktree = Unmodified\<rparr>)] ''a/b.txt''
   \<and> filter is_Commit
        (fst (putInGit (mirror_env (Some NoErrAlreadyUpToDate) unpushed_refs) (worktree_env [])
                config ''o'' ''r'' ''main'' ''a/b.txt'')) = []
   \<and> filter is_Push
        (fst (putInGit (mirror_env (Some NoErrAlreadyUpToDate) unpushed_refs) (worktree_env [])
                config ''o'' ''r'' ''main'' ''a/b.txt'')) = []"
proof -
  let ?env1 = "mirror_env (Some NoMatchingRefSpecError) [SymbolicReference ''HEAD'' ''refs/heads/main'']"
  let ?fenv1 = "worktree_env [(''a/b.txt'', \<lparr>Staging = Added, Worktree = Unmodified\<rparr>)]"
  have ff: "fetchGit_fetch ?env1 ''main''
             = ([Call_FetchContext ''origin-main''
                   ''+refs/heads/main:refs/remotes/origin-main/main''], Inr ())"
    by (simp add: fetchGit_fetch_def mirror_env_def gitRemoteName_def fetch_refspec_def)
  have fr: "fetchGit_reset ?env1 ''refs/heads/main'' = ([], Inr ())"
    by (simp add: fetchGit_reset_def mirror_env_def IsZero_def)
  have f: "fetchGit ?env1 config ''o'' ''r'' ''main''
            = ([Call_MkdirAll ''tmp/git/o/r'', Call_PlainOpen ''tmp/git/o/r/main'',
                Call_SetReference (SymbolicReference ''HEAD'' ''refs/heads/main''),
                Call_FetchContext ''origin-main''
                  ''+refs/heads/main:refs/remotes/origin-main/main''],
               Inr ''tmp/git/o/r/main'')"
    by (simp add: fetchGit_def mirror_env_bind andThen_Inr ff fr NewBranchReferenceName_def)
  have p: "putInGit ?env1 ?fenv1 config ''o'' ''r'' ''main'' ''a/b.txt''
   = ([Call_MkdirAll ''tmp/git/o/r'', Call_PlainOpen ''tmp/git/o/r/main'',
       Call_SetReference (SymbolicReference ''HEAD'' ''refs/heads/main''),
       Call_FetchContext ''origin-main'' ''+refs/heads/main:refs/remotes/origin-main/main'',
       Call_MkdirAll ''tmp/git/o/r/main/a'', Call_OpenFile ''tmp/git/o/r/main/a/b.txt'',
       Call_Copy, Call_Add ''a/b.txt'', Call_Commit ''Automatic update a/b.txt'',
       Call_PushContext ''origin-main''],
      Inr ''https://github.com/o/r/raw/main/a/b.txt'')"
    by (simp only: putInGit_def f andThen_Inr)
       (simp add: andThen_Inr andThen_call andThen_wrap_call andThen_look
        wrap_call mirror_env_def worktree_env_def config_def status_dirty_def gitURL_def
        gitRemoteName_def Let_def)
  have h: "snd (putInGit ?env1 ?fenv1 config ''o'' ''r'' ''main'' ''a/b.txt'')
             = Inr ''https://github.com/o/r/raw/main/a/b.txt''"
    "work_Status ?fenv1 = Inr [(''a/b.txt'', \<lparr>Staging = Added, Worktree = Unmodified\<rparr>)]"
    "path_changed [(''a/b.txt'', \<lparr>Staging = Added, Worktree = Unmodified\<rparr>)] ''a/b.txt''"
    "work_Status (worktree_env []) = Inr []" "\<not> path_changed [] ''a/b.txt''"
    by (simp add: p) (simp_all add: worktree_env_def path_changed_def)
  from idempotent_put [OF h, of "mirror_env (Some NoErrAlreadyUpToDate) unpushed_refs"] p h(3)
  show ?thesis by simp
qed

end
